theory Spec2Isabelle
  imports Complex_Main
begin

section \<open>Python strings\<close>

text \<open>
  A Python \<^verbatim>\<open>str\<close> is a sequence of Unicode code points; \<^verbatim>\<open>len\<close> and slicing count
  code points. A string is modelled as the list of its code points, and an ASCII literal
  of the source is written \<open>ascii ''...''\<close>.
\<close>

type_synonym pystr = "nat list"

definition ascii :: "string \<Rightarrow> pystr" where
  "ascii s = map of_char s"

text \<open>
  The characters that \<^verbatim>\<open>str.strip()\<close>, \<^verbatim>\<open>str.split()\<close>, \<^verbatim>\<open>int()\<close> and the
  regular-expression class \<^verbatim>\<open>\s\<close> treat as whitespace.
\<close>

definition is_space :: "nat \<Rightarrow> bool" where
  "is_space c \<longleftrightarrow>
     (9 \<le> c \<and> c \<le> 13) \<or> (28 \<le> c \<and> c \<le> 32) \<or> c = 133 \<or> c = 160 \<or> c = 5760 \<or>
     (8192 \<le> c \<and> c \<le> 8202) \<or> c = 8232 \<or> c = 8233 \<or> c = 8239 \<or> c = 8287 \<or>
     c = 12288"

text \<open>\<^verbatim>\<open>s.strip()\<close>\<close>

definition py_strip :: "pystr \<Rightarrow> pystr" where
  "py_strip s = rev (dropWhile is_space (rev (dropWhile is_space s)))"

text \<open>\<^verbatim>\<open>s.split()\<close>: the maximal runs of non-whitespace characters, in order.\<close>

function py_split :: "pystr \<Rightarrow> pystr list" where
  "py_split s =
     (case dropWhile is_space s of
        [] \<Rightarrow> []
      | c # cs \<Rightarrow>
          takeWhile (\<lambda>x. \<not> is_space x) (c # cs) #
          py_split (dropWhile (\<lambda>x. \<not> is_space x) (c # cs)))"
  by pat_completeness auto
termination
proof (relation "measure length")
  show "wf (measure length)" by (rule wf_measure)
next
  fix s :: pystr and c cs
  assume a: "dropWhile is_space s = c # cs"
  from a have nsp: "\<not> is_space c" by (simp add: dropWhile_eq_Cons_conv)
  have "length (dropWhile (\<lambda>x. \<not> is_space x) cs) \<le> length cs"
    by (rule length_dropWhile_le)
  moreover have "length (c # cs) \<le> length s"
    using length_dropWhile_le [of is_space s] by (simp only: a)
  ultimately have "length (dropWhile (\<lambda>x. \<not> is_space x) cs) < length s" by simp
  with nsp show "(dropWhile (\<lambda>x. \<not> is_space x) (c # cs), s) \<in> measure length" by simp
qed

declare py_split.simps [simp del]

text \<open>\<^verbatim>\<open>s.split(sep)\<close> for a one-character separator: empty pieces are kept.\<close>

fun py_split_on :: "nat \<Rightarrow> pystr \<Rightarrow> pystr list" where
  "py_split_on sep [] = [[]]"
| "py_split_on sep (c # cs) =
     (if c = sep then [] # py_split_on sep cs
      else (case py_split_on sep cs of
              [] \<Rightarrow> [[c]]
            | l # ls \<Rightarrow> (c # l) # ls))"

text \<open>\<^verbatim>\<open>sep.join(parts)\<close>\<close>

fun py_join :: "pystr \<Rightarrow> pystr list \<Rightarrow> pystr" where
  "py_join sep [] = []"
| "py_join sep [w] = w"
| "py_join sep (w # v # ws) = w @ sep @ py_join sep (v # ws)"

text \<open>\<^verbatim>\<open>s.startswith(p)\<close> and \<^verbatim>\<open>s.removeprefix(p)\<close>\<close>

definition py_startswith :: "pystr \<Rightarrow> pystr \<Rightarrow> bool" where
  "py_startswith s p \<longleftrightarrow> take (length p) s = p"

definition py_removeprefix :: "pystr \<Rightarrow> pystr \<Rightarrow> pystr" where
  "py_removeprefix s p = (if py_startswith s p then drop (length p) s else s)"

text \<open>
  \<^verbatim>\<open>s.replace(old, new)\<close>: the occurrences of \<open>old\<close> are found from the left and do not
  overlap. For the empty \<open>old\<close> Python puts \<open>new\<close> before every character and at the end.
\<close>

function py_replace :: "pystr \<Rightarrow> pystr \<Rightarrow> pystr \<Rightarrow> pystr" where
  "py_replace old new s =
     (if old = [] then new @ concat (map (\<lambda>c. c # new) s)
      else if s = [] then []
      else if py_startswith s old then new @ py_replace old new (drop (length old) s)
      else hd s # py_replace old new (tl s))"
  by pat_completeness auto
termination
  by (relation "measure (\<lambda>(old, new, s). length s)") auto

declare py_replace.simps [simp del]

text \<open>
  \<^verbatim>\<open>int(s)\<close> on a string: surrounding whitespace is dropped, one sign is allowed, and the
  rest is a non-empty run of decimal digits in which single underscores may separate
  digits. \<open>None\<close> is the \<^verbatim>\<open>ValueError\<close>. The whitespace that \<^verbatim>\<open>int\<close> drops is that of
  \<^verbatim>\<open>str.strip()\<close> without the four separators U+001C to U+001F. A digit is any decimal
  digit of Unicode: the digits 0 to 9 of a script are ten consecutive code points, and
  \<open>decimal_zeros\<close> lists the zero of every script (Unicode 14, the table of Python
  3.11). A string with more than 4300 digit characters is refused, the interpreter's
  default limit.
\<close>

definition is_int_space :: "nat \<Rightarrow> bool" where
  "is_int_space c \<longleftrightarrow> is_space c \<and> \<not> (28 \<le> c \<and> c \<le> 31)"

definition int_strip :: "pystr \<Rightarrow> pystr" where
  "int_strip s = rev (dropWhile is_int_space (rev (dropWhile is_int_space s)))"

definition decimal_zeros :: "nat list" where
  "decimal_zeros =
     [48, 1632, 1776, 1984, 2406, 2534, 2662, 2790, 2918, 3046, 3174, 3302, 3430, 3558, 3664,
      3792, 3872, 4160, 4240, 6112, 6160, 6470, 6608, 6784, 6800, 6992, 7088, 7232, 7248,
      42528, 43216, 43264, 43472, 43504, 43600, 44016, 65296, 66720, 68912, 69734, 69872,
      69942, 70096, 70384, 70736, 70864, 71248, 71360, 71472, 71904, 72016, 72784, 73040,
      73120, 92768, 92864, 93008, 120782, 120792, 120802, 120812, 120822, 123200, 123632,
      125264, 130032]"

definition digit_value :: "nat \<Rightarrow> nat option" where
  "digit_value c = map_option (\<lambda>z. c - z) (find (\<lambda>z. z \<le> c \<and> c < z + 10) decimal_zeros)"

definition int_max_str_digits :: nat where
  "int_max_str_digits = 4300"

fun int_digits :: "nat \<Rightarrow> pystr \<Rightarrow> nat option" where
  "int_digits acc [] = Some acc"
| "int_digits acc [c] =
     (case digit_value c of
        Some v \<Rightarrow> Some (10 * acc + v)
      | None \<Rightarrow> None)"
| "int_digits acc (c # d # cs) =
     (case digit_value c of
        Some v \<Rightarrow> int_digits (10 * acc + v) (d # cs)
      | None \<Rightarrow> if c = 95 \<and> digit_value d \<noteq> None then int_digits acc (d # cs) else None)"

definition int_unsigned :: "pystr \<Rightarrow> nat option" where
  "int_unsigned s =
     (case s of
        [] \<Rightarrow> None
      | c # cs \<Rightarrow>
          (case digit_value c of
             None \<Rightarrow> None
           | Some v \<Rightarrow>
               if length (filter (\<lambda>x. digit_value x \<noteq> None) s) > int_max_str_digits then None
               else int_digits v cs))"

definition py_int :: "pystr \<Rightarrow> int option" where
  "py_int s =
     (case int_strip s of
        [] \<Rightarrow> None
      | c # cs \<Rightarrow>
          if c = 45 then map_option (\<lambda>n. - int n) (int_unsigned cs)
          else if c = 43 then map_option int (int_unsigned cs)
          else map_option int (int_unsigned (c # cs)))"

text \<open>\<^verbatim>\<open>str(n)\<close> for an integer, as an f-string renders it.\<close>

fun py_str_nat :: "nat \<Rightarrow> pystr" where
  "py_str_nat n = (if n < 10 then [48 + n] else py_str_nat (n div 10) @ [48 + n mod 10])"

declare py_str_nat.simps [simp del]

definition py_str_int :: "int \<Rightarrow> pystr" where
  "py_str_int i = (if i < 0 then 45 # py_str_nat (nat (- i)) else py_str_nat (nat i))"

text \<open>
  \<^verbatim>\<open>b.decode("utf-8")\<close> on a byte string, strict: \<open>None\<close> is the
  \<^verbatim>\<open>UnicodeDecodeError\<close>. Overlong forms, encoded surrogates and code points above
  U+10FFFF are errors.
\<close>

definition is_cont :: "nat \<Rightarrow> bool" where
  "is_cont b \<longleftrightarrow> 128 \<le> b \<and> b \<le> 191"

fun utf8_decode :: "nat list \<Rightarrow> pystr option" where
  "utf8_decode [] = Some []"
| "utf8_decode (b # bs) =
     (if b < 128 then map_option ((#) b) (utf8_decode bs)
      else if 194 \<le> b \<and> b \<le> 223 then
        (case bs of
           c1 # r \<Rightarrow>
             if is_cont c1
             then map_option ((#) ((b - 192) * 64 + (c1 - 128))) (utf8_decode r)
             else None
         | _ \<Rightarrow> None)
      else if 224 \<le> b \<and> b \<le> 239 then
        (case bs of
           c1 # c2 # r \<Rightarrow>
             if is_cont c1 \<and> is_cont c2 \<and> (if b = 224 then 160 \<le> c1 else True) \<and>
                (if b = 237 then c1 \<le> 159 else True)
             then map_option ((#) ((b - 224) * 4096 + (c1 - 128) * 64 + (c2 - 128)))
                    (utf8_decode r)
             else None
         | _ \<Rightarrow> None)
      else if 240 \<le> b \<and> b \<le> 244 then
        (case bs of
           c1 # c2 # c3 # r \<Rightarrow>
             if is_cont c1 \<and> is_cont c2 \<and> is_cont c3 \<and> (if b = 240 then 144 \<le> c1 else True) \<and>
                (if b = 244 then c1 \<le> 143 else True)
             then map_option
                    ((#) ((b - 240) * 262144 + (c1 - 128) * 4096 + (c2 - 128) * 64 + (c3 - 128)))
                    (utf8_decode r)
             else None
         | _ \<Rightarrow> None)
      else None)"

text \<open>
  \<^verbatim>\<open>s.encode("utf-8")\<close> raises \<^verbatim>\<open>UnicodeEncodeError\<close> exactly when the string holds a
  surrogate code point.
\<close>

definition utf8_encodable :: "pystr \<Rightarrow> bool" where
  "utf8_encodable s = list_all (\<lambda>c. \<not> (55296 \<le> c \<and> c \<le> 57343)) s"

text \<open>Truthiness of a value of type \<^verbatim>\<open>str | None\<close>.\<close>

fun py_truthy :: "pystr option \<Rightarrow> bool" where
  "py_truthy None = False"
| "py_truthy (Some s) = (s \<noteq> [])"

section \<open>JSON values\<close>

text \<open>
  What \<^verbatim>\<open>json.loads\<close> returns. A float is kept as the literal it was read from; an
  object is an association list read with \<open>map_of\<close>. \<^verbatim>\<open>d.get(k)\<close> gives \<^verbatim>\<open>None\<close>, the
  value of JSON's \<^verbatim>\<open>null\<close>, for a missing key.
\<close>

datatype json =
    JNull
  | JBool bool
  | JInt int
  | JFloat pystr
  | JStr pystr
  | JArr "json list"
  | JObj "(pystr \<times> json) list"

definition py_get :: "(pystr \<rightharpoonup> json) \<Rightarrow> pystr \<Rightarrow> json" where
  "py_get d k = (case d k of None \<Rightarrow> JNull | Some v \<Rightarrow> v)"

section \<open>Input sanitizer\<close>

text \<open>\<^verbatim>\<open>clean_text(value, max_len)\<close>, lines 55 to 59 of \<^verbatim>\<open>server.py\<close>.\<close>

fun clean_text :: "json \<Rightarrow> nat \<Rightarrow> pystr" where
  "clean_text (JStr v) max_len = take max_len (py_join (ascii '' '') (py_split (py_strip v)))"
| "clean_text _ max_len = []"

text \<open>\<^verbatim>\<open>clean_comment(value, max_len)\<close>, lines 62 to 67.\<close>

fun clean_comment :: "json \<Rightarrow> nat \<Rightarrow> pystr" where
  "clean_comment (JStr v) max_len =
     (let normalized = py_strip (py_replace [13] [10] (py_replace [13, 10] [10] v));
          lines = map py_strip (py_split_on 10 normalized)
      in take max_len (py_join [10] (filter (\<lambda>line. line \<noteq> []) lines)))"
| "clean_comment _ max_len = []"

text \<open>
  \<^verbatim>\<open>PHONE_RE.fullmatch\<close> for the pattern \<^verbatim>\<open>^[0-9+()\-\s]{6,25}$\<close>: the whole string
  consists of 6 to 25 characters of the class.
\<close>

definition PHONE_RE_class :: "nat \<Rightarrow> bool" where
  "PHONE_RE_class c \<longleftrightarrow>
     (48 \<le> c \<and> c \<le> 57) \<or> c = 43 \<or> c = 40 \<or> c = 41 \<or> c = 45 \<or> is_space c"

definition PHONE_RE_fullmatch :: "pystr \<Rightarrow> bool" where
  "PHONE_RE_fullmatch s \<longleftrightarrow> 6 \<le> length s \<and> length s \<le> 25 \<and> list_all PHONE_RE_class s"

record validated =
  name :: pystr
  phone :: pystr
  car :: pystr
  service :: pystr
  comment :: pystr

text \<open>
  \<^verbatim>\<open>validate_payload(payload)\<close>, lines 70 to 94. The result is the pair the source
  returns: the record or \<^verbatim>\<open>None\<close>, and the rejection reason or \<^verbatim>\<open>None\<close>.
\<close>

definition validate_payload :: "(pystr \<rightharpoonup> json) \<Rightarrow> validated option \<times> pystr option" where
  "validate_payload payload =
     (let nm = clean_text (py_get payload (ascii ''name'')) 80;
          ph = clean_text (py_get payload (ascii ''phone'')) 40;
          cr = clean_text (py_get payload (ascii ''car'')) 120;
          sv = clean_text (py_get payload (ascii ''service'')) 120;
          cm = clean_comment (py_get payload (ascii ''comment'')) 600
      in if nm = [] then (None, Some (ascii ''name_required''))
         else if ph = [] then (None, Some (ascii ''phone_required''))
         else if \<not> PHONE_RE_fullmatch ph then (None, Some (ascii ''phone_invalid''))
         else if cr = [] then (None, Some (ascii ''car_required''))
         else if sv = [] then (None, Some (ascii ''service_required''))
         else (Some \<lparr>name = nm, phone = ph, car = cr, service = sv, comment = cm\<rparr>, None))"

section \<open>Notification formatter\<close>

text \<open>
  \<^verbatim>\<open>build_admin_message(data, client_ip)\<close>, lines 97 to 109. The clock reading, already
  rendered by \<^verbatim>\<open>strftime\<close>, is the argument \<open>ts\<close>; the literals are given by their code
  points.
\<close>

definition build_admin_message :: "validated \<Rightarrow> pystr \<Rightarrow> pystr \<Rightarrow> pystr" where
  "build_admin_message data client_ip ts =
     (let cm = (if comment data \<noteq> [] then comment data else [8212]) in
      [127381, 32, 1053, 1086, 1074, 1072, 1103, 32, 1079, 1072, 1103, 1074, 1082, 1072, 32,
       1089, 32, 1089, 1072, 1081, 1090, 1072, 32, 68, 82, 73, 86, 79, 78, 10] @
      [1048, 1084, 1103, 58, 32] @ name data @
      [10, 1058, 1077, 1083, 1077, 1092, 1086, 1085, 58, 32] @ phone data @
      [10, 1040, 1074, 1090, 1086, 1084, 1086, 1073, 1080, 1083, 1100, 58, 32] @ car data @
      [10, 1059, 1089, 1083, 1091, 1075, 1072, 58, 32] @ service data @
      [10, 1050, 1086, 1084, 1084, 1077, 1085, 1090, 1072, 1088, 1080, 1081, 58, 32] @ cm @
      [10, 73, 80, 58, 32] @ client_ip @
      [10, 1042, 1088, 1077, 1084, 1103, 58, 32] @ ts)"

section \<open>Delivery to one recipient\<close>

datatype exn =
    ValueError
  | UnicodeDecodeError
  | UnicodeEncodeError
  | JSONDecodeError
  | RecursionError

text \<open>
  What happens inside the \<^verbatim>\<open>try\<close> block of \<^verbatim>\<open>send_telegram_message\<close>, lines 133 to
  145. \<open>Replied ok d\<close>: the response body is a JSON object, \<open>ok\<close> is the truth value of
  \<^verbatim>\<open>body.get("ok")\<close>, and \<open>d\<close> is its description. \<^verbatim>\<open>str\<close> of a truthy value is never
  the empty string, so the text of a truthy description is given by its first character
  and the rest. \<open>RaisedException\<close> is every other exception: a body that is not UTF-8 or
  not JSON, a body that is no object, a timeout while reading.
\<close>

datatype description = DescriptionFalsy | DescriptionText nat pystr

datatype exchange =
    Replied bool description
  | RaisedHTTPError int
  | RaisedURLError
  | RaisedException

text \<open>
  The \<^verbatim>\<open>try\<close> block of \<^verbatim>\<open>send_telegram_message\<close> with its three handlers, lines 133
  to 145: the pair the function returns for an exchange.
\<close>

definition try_send :: "exchange \<Rightarrow> bool \<times> pystr option" where
  "try_send ex =
     (case ex of
        Replied ok d \<Rightarrow>
          if ok then (True, None)
          else (False,
                Some (case d of
                        DescriptionFalsy \<Rightarrow> ascii ''telegram_unknown_error''
                      | DescriptionText c cs \<Rightarrow> c # cs))
      | RaisedHTTPError code \<Rightarrow> (False, Some (ascii ''http_'' @ py_str_int code))
      | RaisedURLError \<Rightarrow> (False, Some (ascii ''telegram_unreachable''))
      | RaisedException \<Rightarrow> (False, Some (ascii ''telegram_request_failed'')))"

text \<open>
  \<^verbatim>\<open>send_telegram_message(bot_token, chat_id, text, thread_id)\<close>, lines 112 to 145, given
  the exchange \<open>ex\<close> with the messaging API. \<^verbatim>\<open>int(thread_id)\<close> and the encoding of the
  request body stand before the \<^verbatim>\<open>try\<close>: their exceptions leave the function.
\<close>

definition send_telegram_message ::
  "pystr \<Rightarrow> pystr \<Rightarrow> pystr \<Rightarrow> pystr option \<Rightarrow> exchange \<Rightarrow> exn + (bool \<times> pystr option)" where
  "send_telegram_message bot_token chat_id text thread_id ex =
     (if py_truthy thread_id \<and> py_int (the thread_id) = None then Inl ValueError
      else if \<not> (utf8_encodable chat_id \<and> utf8_encodable text) then Inl UnicodeEncodeError
      else Inr (try_send ex))"

section \<open>Configuration\<close>

text \<open>The process environment: \<open>None\<close> is an unset variable.\<close>

record environ =
  BOT_TOKEN :: "pystr option"
  ADMIN_IDS :: "pystr option"
  TELEGRAM_THREAD_ID :: "pystr option"
  DATABASE_URL :: "pystr option"

text \<open>\<^verbatim>\<open>os.getenv(key, default)\<close>\<close>

definition getenv :: "pystr option \<Rightarrow> pystr \<Rightarrow> pystr" where
  "getenv var dflt = (case var of None \<Rightarrow> dflt | Some v \<Rightarrow> v)"

text \<open>\<^verbatim>\<open>parse_admin_ids()\<close>, lines 45 to 52.\<close>

definition parse_admin_ids :: "environ \<Rightarrow> pystr list" where
  "parse_admin_ids env =
     filter (\<lambda>v. v \<noteq> []) (map py_strip (py_split_on 44 (getenv (ADMIN_IDS env) [])))"

text \<open>\<^verbatim>\<open>normalize_database_url(value)\<close>, lines 148 to 154.\<close>

definition normalize_database_url :: "pystr \<Rightarrow> pystr" where
  "normalize_database_url v =
     (let database_url = py_strip v in
      if py_startswith database_url (ascii ''postgres://'')
      then ascii ''postgresql://'' @ py_removeprefix database_url (ascii ''postgres://'')
      else if py_startswith database_url (ascii ''postgresql+asyncpg://'')
      then ascii ''postgresql://'' @ py_removeprefix database_url (ascii ''postgresql+asyncpg://'')
      else database_url)"

section \<open>Request dispatcher\<close>

definition MAX_BODY_BYTES :: int where
  "MAX_BODY_BYTES = 20000"

text \<open>
  The request as the handler sees it: the path that \<^verbatim>\<open>urlparse\<close> gives, the
  \<^verbatim>\<open>Content-Length\<close> header when there is one, the bytes waiting on \<^verbatim>\<open>rfile\<close>, and the
  host of \<^verbatim>\<open>client_address\<close> when that is set.
\<close>

record request =
  path :: pystr
  content_length :: "pystr option"
  rfile :: "nat list"
  client_address :: "pystr option"

text \<open>
  What lies outside the program: \<^verbatim>\<open>json.loads\<close> on the decoded body (a value, or the
  exception it raises), the exchange of the \<open>i\<close>-th outbound call to the messaging API,
  counted from 0, and the rendered local time.
\<close>

datatype loads_result = Loaded json | LoadsRaised exn

record world =
  json_loads :: "pystr \<Rightarrow> loads_result"
  telegram :: "nat \<Rightarrow> exchange"
  strftime_now :: pystr

text \<open>
  What the handler does with the request: \<^verbatim>\<open>respond_json(status, data)\<close>,
  \<^verbatim>\<open>send_error(status)\<close>, or an exception that leaves \<^verbatim>\<open>do_POST\<close>.
\<close>

datatype outcome = Response nat json | ErrorPage nat | Unhandled exn

text \<open>
  \<^verbatim>\<open>json.dumps(data, ensure_ascii=False).encode("utf-8")\<close>, the first statement of
  \<^verbatim>\<open>respond_json\<close>, raises \<^verbatim>\<open>UnicodeEncodeError\<close> exactly when a string of the data holds
  a surrogate code point.
\<close>

fun json_encodable :: "json \<Rightarrow> bool" where
  "json_encodable (JStr s) = utf8_encodable s"
| "json_encodable (JArr xs) = list_all json_encodable xs"
| "json_encodable (JObj kvs) = list_all (\<lambda>kv. utf8_encodable (fst kv) \<and> json_encodable (snd kv)) kvs"
| "json_encodable _ = True"

text \<open>
  \<^verbatim>\<open>respond_json(status, data)\<close>, lines 219 to 225: the body is encoded on line 220,
  before anything is written; when that raises, the exception leaves the handler and no
  response is sent.
\<close>

definition respond_json :: "nat \<Rightarrow> json \<Rightarrow> outcome" where
  "respond_json status data =
     (if json_encodable data then Response status data else Unhandled UnicodeEncodeError)"

text \<open>
  The loop of lines 303 to 310: \<open>i\<close> counts the outbound calls made so far,
  \<open>delivered\<close> and \<open>errors\<close> are the loop's two variables.
\<close>

fun fan_out ::
  "pystr \<Rightarrow> pystr \<Rightarrow> pystr option \<Rightarrow> (nat \<Rightarrow> exchange) \<Rightarrow> nat \<Rightarrow> pystr list \<Rightarrow> nat \<Rightarrow> pystr list \<Rightarrow>
   exn + (nat \<times> pystr list)" where
  "fan_out bot_token text thread_id net i [] delivered errors = Inr (delivered, errors)"
| "fan_out bot_token text thread_id net i (admin_id # rest) delivered errors =
     (case send_telegram_message bot_token admin_id text thread_id (net i) of
        Inl e \<Rightarrow> Inl e
      | Inr (success, send_error) \<Rightarrow>
          if success
          then fan_out bot_token text thread_id net (Suc i) rest (delivered + 1) errors
          else if py_truthy send_error
          then fan_out bot_token text thread_id net (Suc i) rest delivered
                 (errors @ [admin_id @ ascii '':'' @ the send_error])
          else fan_out bot_token text thread_id net (Suc i) rest delivered errors)"

text \<open>\<^verbatim>\<open>AppHandler.do_POST\<close>, lines 259 to 319.\<close>

definition do_POST :: "environ \<Rightarrow> world \<Rightarrow> request \<Rightarrow> outcome" where
  "do_POST env w req =
     (if path req \<noteq> ascii ''/api/request'' then ErrorPage 404
      else
        let bot_token = py_strip (getenv (BOT_TOKEN env) []);
            admin_ids = parse_admin_ids env;
            thread_id = (let t = py_strip (getenv (TELEGRAM_THREAD_ID env) [])
                         in if t \<noteq> [] then Some t else None)
        in
        if bot_token = [] \<or> admin_ids = []
        then respond_json 500
               (JObj [(ascii ''ok'', JBool False),
                      (ascii ''error'', JStr (ascii ''server_not_configured''))])
        else
          let len = (case py_int (case content_length req of None \<Rightarrow> ascii ''0'' | Some h \<Rightarrow> h) of
                       None \<Rightarrow> 0
                     | Some n \<Rightarrow> n)
          in
          if len \<le> 0 \<or> len > MAX_BODY_BYTES
          then respond_json 400
                 (JObj [(ascii ''ok'', JBool False),
                        (ascii ''error'', JStr (ascii ''invalid_body_size''))])
          else
            (case utf8_decode (take (nat len) (rfile req)) of
               None \<Rightarrow> Unhandled UnicodeDecodeError
             | Some decoded \<Rightarrow>
                 (case json_loads w decoded of
                    LoadsRaised e \<Rightarrow>
                      if e = JSONDecodeError
                      then respond_json 400
                             (JObj [(ascii ''ok'', JBool False),
                                    (ascii ''error'', JStr (ascii ''invalid_json''))])
                      else Unhandled e
                  | Loaded payload \<Rightarrow>
                      (case payload of
                         JObj kvs \<Rightarrow>
                           (case validate_payload (map_of kvs) of
                              (valid, error) \<Rightarrow>
                                if py_truthy error \<or> valid = None
                                then respond_json 400
                                       (JObj [(ascii ''ok'', JBool False),
                                              (ascii ''error'',
                                               JStr (if py_truthy error then the error
                                                     else ascii ''invalid_payload''))])
                                else
                                  let client_ip = (case client_address req of
                                                     Some host \<Rightarrow> host
                                                   | None \<Rightarrow> ascii ''-'');
                                      text = build_admin_message (the valid) client_ip
                                               (strftime_now w)
                                  in
                                  (case fan_out bot_token text thread_id (telegram w) 0
                                          admin_ids 0 [] of
                                     Inl e \<Rightarrow> Unhandled e
                                   | Inr (delivered, errors) \<Rightarrow>
                                       if delivered = 0
                                       then respond_json 502
                                              (JObj [(ascii ''ok'', JBool False),
                                                     (ascii ''error'',
                                                      JStr (ascii ''telegram_send_failed'')),
                                                     (ascii ''details'', JArr (map JStr errors))])
                                       else respond_json 200
                                              (JObj [(ascii ''ok'', JBool True),
                                                     (ascii ''delivered'',
                                                      JInt (int delivered))])))
                       | _ \<Rightarrow>
                           respond_json 400
                             (JObj [(ascii ''ok'', JBool False),
                                    (ascii ''error'', JStr (ascii ''invalid_payload''))])))))"

section \<open>Services cache\<close>

definition SERVICES_CACHE_TTL_SECONDS :: real where
  "SERVICES_CACHE_TTL_SECONDS = 60"

text \<open>
  The two module-level variables of lines 27 and 28; a snapshot is the list of the
  listing's rows, each a JSON object.
\<close>

record cache =
  services_cache_until :: real
  services_cache_data :: "json list option"


text \<open>
  What \<^verbatim>\<open>asyncio.run(fetch_active_services(database_url))\<close> does when it is called: it
  returns the rows, or raises \<^verbatim>\<open>ModuleNotFoundError\<close>, or raises another exception.
\<close>

datatype fetch_outcome =
    Fetched "json list"
  | FetchRaisedModuleNotFoundError
  | FetchRaisedException

text \<open>
  \<^verbatim>\<open>load_active_services()\<close>, lines 186 to 208, one call run from start to end: \<open>c\<close> is
  the cache before the call, \<open>now\<close> the reading of \<^verbatim>\<open>time.monotonic()\<close> on line 193, and
  \<open>fetch\<close> what the fetch does if the call reaches line 199. The result is the pair the
  source returns, the cache after the call, and the number of fetches the call made.
\<close>

definition load_active_services ::
  "environ \<Rightarrow> cache \<Rightarrow> real \<Rightarrow> fetch_outcome \<Rightarrow> (json list option \<times> pystr option) \<times> cache \<times> nat" where
  "load_active_services env c now fetch =
     (let database_url = normalize_database_url (getenv (DATABASE_URL env) []) in
      if database_url = [] then ((None, Some (ascii ''database_not_configured'')), c, 0)
      else if services_cache_data c \<noteq> None \<and> now < services_cache_until c
      then ((services_cache_data c, None), c, 0)
      else
        (case fetch of
           FetchRaisedModuleNotFoundError \<Rightarrow> ((None, Some (ascii ''asyncpg_not_installed'')), c, 1)
         | FetchRaisedException \<Rightarrow> ((None, Some (ascii ''services_query_failed'')), c, 1)
         | Fetched services \<Rightarrow>
             ((Some services, None),
              c\<lparr>services_cache_data := Some services,
                services_cache_until := now + SERVICES_CACHE_TTL_SECONDS\<rparr>,
              1)))"

section \<open>The specification's wording\<close>

text \<open>
  Text fields, section 4.1 of the specification: every run of whitespace becomes one
  space, the ends are trimmed, and the result is cut to the maximal length.
\<close>

fun collapse_ws :: "pystr \<Rightarrow> pystr" where
  "collapse_ws [] = []"
| "collapse_ws [c] = [if is_space c then 32 else c]"
| "collapse_ws (c # d # cs) =
     (if is_space c \<and> is_space d then collapse_ws (d # cs)
      else (if is_space c then 32 else c) # collapse_ws (d # cs))"

definition clean_text_spec :: "pystr \<Rightarrow> nat \<Rightarrow> pystr" where
  "clean_text_spec v max_len = take max_len (py_strip (collapse_ws v))"

text \<open>
  Comment field, section 4.1: the text is cut into lines at every line ending (CR LF, CR
  or LF), each line is trimmed, empty lines are dropped, the rest is joined with LF and
  cut to the maximal length.
\<close>

fun split_lines :: "pystr \<Rightarrow> pystr list" where
  "split_lines [] = [[]]"
| "split_lines (c # cs) =
     (if c = 13 then
        (case cs of
           [] \<Rightarrow> [] # split_lines cs
         | d # ds \<Rightarrow> if d = 10 then [] # split_lines ds else [] # split_lines cs)
      else if c = 10 then [] # split_lines cs
      else (case split_lines cs of
              [] \<Rightarrow> [[c]]
            | l # ls \<Rightarrow> (c # l) # ls))"

definition clean_comment_spec :: "pystr \<Rightarrow> nat \<Rightarrow> pystr" where
  "clean_comment_spec v max_len =
     take max_len (py_join [10] (filter (\<lambda>l. l \<noteq> []) (map py_strip (split_lines v))))"

text \<open>
  Phone format, section 3: digits, \<open>+\<close>, \<open>-\<close>, \<open>(\<close>, \<open>)\<close> and spaces, 6 to 25 characters.
\<close>

definition is_digit :: "nat \<Rightarrow> bool" where
  "is_digit c \<longleftrightarrow> 48 \<le> c \<and> c \<le> 57"

definition phone_allowed_char :: "nat \<Rightarrow> bool" where
  "phone_allowed_char c \<longleftrightarrow> is_digit c \<or> c = 43 \<or> c = 45 \<or> c = 40 \<or> c = 41 \<or> c = 32"

definition phone_allowed :: "pystr \<Rightarrow> bool" where
  "phone_allowed s \<longleftrightarrow> 6 \<le> length s \<and> length s \<le> 25 \<and> list_all phone_allowed_char s"

text \<open>
  Rejection reasons, section 4.1: the reasons that apply to a payload, in the priority
  order of the specification.
\<close>

definition rejection_reasons :: "(pystr \<rightharpoonup> json) \<Rightarrow> pystr list" where
  "rejection_reasons payload =
     (let nm = clean_text (py_get payload (ascii ''name'')) 80;
          ph = clean_text (py_get payload (ascii ''phone'')) 40;
          cr = clean_text (py_get payload (ascii ''car'')) 120;
          sv = clean_text (py_get payload (ascii ''service'')) 120
      in (if nm = [] then [ascii ''name_required''] else []) @
         (if ph = [] then [ascii ''phone_required''] else []) @
         (if ph \<noteq> [] \<and> \<not> phone_allowed ph then [ascii ''phone_invalid''] else []) @
         (if cr = [] then [ascii ''car_required''] else []) @
         (if sv = [] then [ascii ''service_required''] else []))"

text \<open>
  Delivery report, sections 3 and 6: the number of recipients whose delivery succeeded,
  and one descriptor \<open>recipient_id:error_code\<close> for every recipient whose delivery
  failed, in the order of the recipients. \<open>outcomes\<close> holds one outcome for each
  recipient: the success flag and, on failure, the error code.
\<close>

definition delivery_report :: "pystr list \<Rightarrow> (bool \<times> pystr option) list \<Rightarrow> nat \<times> pystr list" where
  "delivery_report ids outcomes =
     (length (filter fst outcomes),
      map (\<lambda>(admin_id, r). admin_id @ ascii '':'' @ the (snd r))
        (filter (\<lambda>(admin_id, r). \<not> fst r) (zip ids outcomes)))"

section \<open>Sample data\<close>

text \<open>
  A configured environment with the recipients A, B and C, and a well-formed request: the
  body is the UTF-8 text
  \<^verbatim>\<open>{"name":"Ivan","phone":"+7 (900) 123-45-67","car":"BMW X5","service":"wash"}\<close>
  of 76 bytes, which \<^verbatim>\<open>json.loads\<close> reads as \<open>sample_payload\<close>.
\<close>

definition sample_payload :: "(pystr \<times> json) list" where
  "sample_payload =
     [(ascii ''name'', JStr (ascii ''Ivan'')),
      (ascii ''phone'', JStr (ascii ''+7 (900) 123-45-67'')),
      (ascii ''car'', JStr (ascii ''BMW X5'')),
      (ascii ''service'', JStr (ascii ''wash''))]"

definition sample_env :: environ where
  "sample_env =
     \<lparr>BOT_TOKEN = Some (ascii ''t0ken''), ADMIN_IDS = Some (ascii ''A,B,C''),
        TELEGRAM_THREAD_ID = None, DATABASE_URL = None\<rparr>"

definition sample_body :: "nat list" where
  "sample_body =
     [123, 34, 110, 97, 109, 101, 34, 58, 34, 73, 118, 97, 110, 34, 44, 34, 112, 104, 111,
      110, 101, 34, 58, 34, 43, 55, 32, 40, 57, 48, 48, 41, 32, 49, 50, 51, 45, 52, 53, 45,
      54, 55, 34, 44, 34, 99, 97, 114, 34, 58, 34, 66, 77, 87, 32, 88, 53, 34, 44, 34, 115,
      101, 114, 118, 105, 99, 101, 34, 58, 34, 119, 97, 115, 104, 34, 125]"

definition sample_request :: request where
  "sample_request =
     \<lparr>path = ascii ''/api/request'', content_length = Some (ascii ''76''), rfile = sample_body,
        client_address = Some (ascii ''127.0.0.1'')\<rparr>"

definition sample_world :: "(nat \<Rightarrow> exchange) \<Rightarrow> world" where
  "sample_world net =
     \<lparr>json_loads = (\<lambda>t. if t = sample_body then Loaded (JObj sample_payload)
                          else LoadsRaised JSONDecodeError),
        telegram = net, strftime_now = ascii ''04.11.2026 12:00''\<rparr>"

text \<open>
  A request whose name is a lone surrogate: the body is the ASCII text
  \<^verbatim>\<open>{"name":"\ud800","phone":"+7 (900) 123-45-67","car":"BMW X5","service":"wash"}\<close>
  of 78 bytes, which \<^verbatim>\<open>json.loads\<close> reads as \<open>surrogate_payload\<close>.
\<close>

definition surrogate_payload :: "(pystr \<times> json) list" where
  "surrogate_payload =
     [(ascii ''name'', JStr [55296]),
      (ascii ''phone'', JStr (ascii ''+7 (900) 123-45-67'')),
      (ascii ''car'', JStr (ascii ''BMW X5'')),
      (ascii ''service'', JStr (ascii ''wash''))]"

definition surrogate_body :: "nat list" where
  "surrogate_body =
     [123, 34, 110, 97, 109, 101, 34, 58, 34, 92, 117, 100, 56, 48, 48, 34, 44, 34, 112, 104,
      111, 110, 101, 34, 58, 34, 43, 55, 32, 40, 57, 48, 48, 41, 32, 49, 50, 51, 45, 52, 53,
      45, 54, 55, 34, 44, 34, 99, 97, 114, 34, 58, 34, 66, 77, 87, 32, 88, 53, 34, 44, 34,
      115, 101, 114, 118, 105, 99, 101, 34, 58, 34, 119, 97, 115, 104, 34, 125]"

definition surrogate_request :: request where
  "surrogate_request =
     \<lparr>path = ascii ''/api/request'', content_length = Some (ascii ''78''),
        rfile = surrogate_body, client_address = Some (ascii ''127.0.0.1'')\<rparr>"

definition surrogate_world :: "(nat \<Rightarrow> exchange) \<Rightarrow> world" where
  "surrogate_world net =
     \<lparr>json_loads = (\<lambda>t. if t = surrogate_body then Loaded (JObj surrogate_payload)
                          else LoadsRaised JSONDecodeError),
        telegram = net, strftime_now = ascii ''04.11.2026 12:00''\<rparr>"

section \<open>Services cache: properties\<close>

lemma normalize_database_url_unset: "normalize_database_url (getenv None []) = []"
  by (simp add: normalize_database_url_def getenv_def py_strip_def py_startswith_def ascii_def)

lemma normalize_database_url_example:
  "normalize_database_url (getenv (Some (ascii ''postgresql://db'')) []) = ascii ''postgresql://db''"
  by (simp add: normalize_database_url_def getenv_def py_strip_def py_startswith_def
      py_removeprefix_def ascii_def is_space_def)




text \<open>
  Claim C4. With the backing store configured, a call whose fetch fails leaves the cache
  (snapshot and expiry) as it was. If the cached snapshot is still within its window the
  call returns it without making a fetch; otherwise the call makes one fetch and returns
  that fetch's error, \<open>asyncpg_not_installed\<close> or \<open>services_query_failed\<close>, and no
  snapshot.
\<close>

theorem fetch_failure_keeps_cache:
  assumes "normalize_database_url (getenv (DATABASE_URL env) []) \<noteq> []"
    and "fetch = FetchRaisedModuleNotFoundError \<or> fetch = FetchRaisedException"
  shows "load_active_services env c now fetch =
           (if services_cache_data c \<noteq> None \<and> now < services_cache_until c
            then ((services_cache_data c, None), c, 0)
            else ((None,
                   Some (if fetch = FetchRaisedModuleNotFoundError
                         then ascii ''asyncpg_not_installed''
                         else ascii ''services_query_failed'')), c, 1))"
  using assms by (auto simp add: load_active_services_def)

theorem fetch_failure_keeps_cache_witness:
  "normalize_database_url
     (getenv (DATABASE_URL \<lparr>BOT_TOKEN = None, ADMIN_IDS = None, TELEGRAM_THREAD_ID = None,
                             DATABASE_URL = Some (ascii ''postgresql://db'')\<rparr>) []) \<noteq> [] \<and>
   load_active_services
     \<lparr>BOT_TOKEN = None, ADMIN_IDS = None, TELEGRAM_THREAD_ID = None,
        DATABASE_URL = Some (ascii ''postgresql://db'')\<rparr>
     \<lparr>services_cache_until = 60, services_cache_data = Some [JObj []]\<rparr> 61 FetchRaisedException =
     ((None, Some (ascii ''services_query_failed'')),
      \<lparr>services_cache_until = 60, services_cache_data = Some [JObj []]\<rparr>, 1) \<and>
   load_active_services
     \<lparr>BOT_TOKEN = None, ADMIN_IDS = None, TELEGRAM_THREAD_ID = None,
        DATABASE_URL = Some (ascii ''postgresql://db'')\<rparr>
     \<lparr>services_cache_until = 60, services_cache_data = Some [JObj []]\<rparr> 59
     FetchRaisedModuleNotFoundError =
     ((Some [JObj []], None),
      \<lparr>services_cache_until = 60, services_cache_data = Some [JObj []]\<rparr>, 0)"
proof -
  let ?env = "\<lparr>BOT_TOKEN = None, ADMIN_IDS = None, TELEGRAM_THREAD_ID = None,
                DATABASE_URL = Some (ascii ''postgresql://db'')\<rparr>"
  let ?c = "\<lparr>services_cache_until = 60, services_cache_data = Some [JObj []]\<rparr>"
  have conf: "normalize_database_url (getenv (DATABASE_URL ?env) []) \<noteq> []"
    by (simp add: normalize_database_url_example) (simp add: ascii_def)
  have late: "load_active_services ?env ?c 61 FetchRaisedException =
                ((None, Some (ascii ''services_query_failed'')), ?c, 1)"
    using fetch_failure_keeps_cache [OF conf, of FetchRaisedException ?c 61] by simp
  have early: "load_active_services ?env ?c 59 FetchRaisedModuleNotFoundError =
                ((Some [JObj []], None), ?c, 0)"
    using fetch_failure_keeps_cache [OF conf, of FetchRaisedModuleNotFoundError ?c 59] by simp
  from conf late early show ?thesis by simp
qed

text \<open>
  Claim C10. When the connection string is absent (unset, or empty once trimmed), the
  call returns \<open>database_not_configured\<close> without a fetch and without reading the
  cache: the answer is the same for every cache, also one that holds a snapshot still
  within its window.
\<close>

theorem database_not_configured_bypasses_cache:
  assumes "normalize_database_url (getenv (DATABASE_URL env) []) = []"
  shows "load_active_services env c now fetch =
           ((None, Some (ascii ''database_not_configured'')), c, 0)"
  using assms by (simp add: load_active_services_def)

theorem database_not_configured_bypasses_cache_witness:
  "normalize_database_url
     (getenv (DATABASE_URL \<lparr>BOT_TOKEN = None, ADMIN_IDS = None, TELEGRAM_THREAD_ID = None,
                             DATABASE_URL = None\<rparr>) []) = [] \<and>
   services_cache_data \<lparr>services_cache_until = 100, services_cache_data = Some [JObj []]\<rparr> \<noteq> None \<and>
   (5::real) < services_cache_until \<lparr>services_cache_until = 100, services_cache_data = Some [JObj []]\<rparr> \<and>
   load_active_services
     \<lparr>BOT_TOKEN = None, ADMIN_IDS = None, TELEGRAM_THREAD_ID = None, DATABASE_URL = None\<rparr>
     \<lparr>services_cache_until = 100, services_cache_data = Some [JObj []]\<rparr> 5 (Fetched []) =
   ((None, Some (ascii ''database_not_configured'')),
    \<lparr>services_cache_until = 100, services_cache_data = Some [JObj []]\<rparr>, 0)"
proof -
  have h: "normalize_database_url
     (getenv (DATABASE_URL \<lparr>BOT_TOKEN = None, ADMIN_IDS = None, TELEGRAM_THREAD_ID = None,
                             DATABASE_URL = None\<rparr>) []) = []"
    by (simp add: normalize_database_url_unset)
  show ?thesis
    using h database_not_configured_bypasses_cache [OF h] by simp
qed

section \<open>Encoding of responses\<close>

lemma of_char_below_256: "(of_char c :: nat) < 256"
proof -
  have "(of_char c :: nat) = of_char c mod 256" by simp
  also have "\<dots> < 256" by (rule mod_less_divisor) simp
  finally show ?thesis .
qed

lemma ascii_encodable: "utf8_encodable (ascii s)"
proof -
  have "\<not> (55296 \<le> (of_char c :: nat))" for c
    using of_char_below_256 [of c] by linarith
  then show ?thesis by (simp add: utf8_encodable_def ascii_def list_all_iff)
qed

lemma respond_json_error:
  "respond_json status (JObj [(ascii ''ok'', JBool b), (ascii ''error'', JStr (ascii e))]) =
     Response status (JObj [(ascii ''ok'', JBool b), (ascii ''error'', JStr (ascii e))])"
  by (simp add: respond_json_def ascii_encodable)

lemma respond_json_delivered:
  "respond_json status (JObj [(ascii ''ok'', JBool b), (ascii ''delivered'', JInt n)]) =
     Response status (JObj [(ascii ''ok'', JBool b), (ascii ''delivered'', JInt n)])"
  by (simp add: respond_json_def ascii_encodable)

lemma respond_json_details:
  "respond_json status
     (JObj [(ascii ''ok'', JBool b), (ascii ''error'', JStr (ascii e)),
            (ascii ''details'', JArr (map JStr errors))]) =
     (if list_all utf8_encodable errors
      then Response status
             (JObj [(ascii ''ok'', JBool b), (ascii ''error'', JStr (ascii e)),
                    (ascii ''details'', JArr (map JStr errors))])
      else Unhandled UnicodeEncodeError)"
  by (simp add: respond_json_def ascii_encodable list_all_iff)

section \<open>Evaluation on the sample data\<close>

lemmas eval_strings =
  ascii_def py_strip_def is_space_def py_split.simps py_get_def PHONE_RE_fullmatch_def
  PHONE_RE_class_def

lemma validate_sample:
  "validate_payload (map_of sample_payload) =
     (Some \<lparr>name = ascii ''Ivan'', phone = ascii ''+7 (900) 123-45-67'', car = ascii ''BMW X5'',
             service = ascii ''wash'', comment = []\<rparr>, None)"
  by (simp add: validate_payload_def sample_payload_def Let_def eval_strings)

lemma sample_env_ids: "parse_admin_ids sample_env = [ascii ''A'', ascii ''B'', ascii ''C'']"
  by (simp add: sample_env_def parse_admin_ids_def getenv_def py_strip_def is_space_def ascii_def)

lemma sample_env_token: "py_strip (getenv (BOT_TOKEN sample_env) []) = ascii ''t0ken''"
  by (simp add: sample_env_def getenv_def py_strip_def is_space_def ascii_def)

lemma sample_env_thread: "py_strip (getenv (TELEGRAM_THREAD_ID sample_env) []) = []"
  by (simp add: sample_env_def getenv_def py_strip_def)

lemma sample_length:
  "py_int (case content_length sample_request of None \<Rightarrow> ascii ''0'' | Some h \<Rightarrow> h) = Some 76"
  by (simp add: sample_request_def py_int_def int_unsigned_def digit_value_def decimal_zeros_def
      int_max_str_digits_def int_strip_def is_int_space_def is_space_def ascii_def)

lemma sample_decode: "utf8_decode (take (nat 76) (rfile sample_request)) = Some sample_body"
  by (simp add: sample_request_def sample_body_def)

lemma sample_text_encodable:
  "utf8_encodable
     (build_admin_message
        \<lparr>name = ascii ''Ivan'', phone = ascii ''+7 (900) 123-45-67'', car = ascii ''BMW X5'',
           service = ascii ''wash'', comment = []\<rparr>
        (case client_address sample_request of Some host \<Rightarrow> host | None \<Rightarrow> ascii ''-'')
        (strftime_now (sample_world net)))"
  by (simp add: utf8_encodable_def build_admin_message_def sample_request_def sample_world_def
      ascii_def)

lemma upt_3: "[0..<3] = [0, 1, 2]"
  by (simp add: upt_rec)

lemma py_int_examples:
  "py_int (ascii ''0'') = Some 0"
  "py_int (ascii ''1'') = Some 1"
  "py_int (ascii ''20001'') = Some 20001"
  "py_int (ascii '' 1_0 '') = Some 10"
  "py_int (ascii ''-5'') = Some (- 5)"
  "py_int (ascii ''abc'') = None"
  "py_int (ascii ''1__0'') = None"
  "py_int [] = None"
  "py_int [28, 53] = None"
  "py_int [160, 53, 160] = Some 5"
  "py_int [1633, 1634] = Some 12"
  "py_int [53, 95, 1637] = Some 55"
  "py_int (ascii ''78'') = Some 78"
  by (simp_all add: py_int_def int_unsigned_def digit_value_def decimal_zeros_def
      int_max_str_digits_def int_strip_def is_int_space_def is_space_def ascii_def)

lemma py_int_digit_limit:
  assumes "4300 < n"
  shows "py_int (replicate n 49) = None"
proof -
  from assms obtain m where m: "n = Suc m" by (cases n) simp_all
  have dv: "digit_value 49 = Some 1"
    by (simp add: digit_value_def decimal_zeros_def)
  have sp: "\<not> is_int_space 49"
    by (simp add: is_int_space_def is_space_def)
  have strip: "int_strip (replicate n 49) = replicate n 49"
    using sp by (simp add: int_strip_def)
  have count: "length (filter (\<lambda>x. digit_value x \<noteq> None) (replicate n 49)) = n"
    by (simp add: dv)
  have "int_unsigned (49 # replicate m 49) = None"
    using assms count by (simp add: m int_unsigned_def dv int_max_str_digits_def)
  then have "int_unsigned (replicate n 49) = None" by (simp add: m)
  then show ?thesis
    by (simp add: py_int_def strip) (simp add: m)
qed

lemma utf8_decode_examples:
  "utf8_decode [255] = None"
  "utf8_decode [123, 125] = Some [123, 125]"
  "utf8_decode [208, 157, 226, 128, 148, 240, 159, 134, 149] = Some [1053, 8212, 127381]"
  "utf8_decode [237, 160, 128] = None"
  "utf8_decode [192, 128] = None"
  by (simp_all add: is_cont_def)

section \<open>Delivery fan-out: properties\<close>

lemma try_send_shape:
  "try_send ex = (True, None) \<or> (\<exists>code. try_send ex = (False, Some code) \<and> code \<noteq> [])"
  by (cases ex) (auto simp add: try_send_def ascii_def split: description.splits)

lemma try_send_cases:
  obtains "try_send ex = (True, None)"
  | code where "try_send ex = (False, Some code)" "code \<noteq> []"
  using try_send_shape [of ex] by blast

text \<open>
  When no call raises, the loop ends with the delivery report of the outcomes of its
  calls, added to the values the loop variables had before.
\<close>

lemma fan_out_report_from:
  assumes "\<not> (py_truthy thread_id \<and> py_int (the thread_id) = None)"
    and "utf8_encodable text"
  shows "list_all utf8_encodable ids \<Longrightarrow>
         fan_out bot_token text thread_id net i ids delivered errors =
           Inr (delivered +
                  fst (delivery_report ids (map (\<lambda>k. try_send (net k)) [i..<i + length ids])),
                errors @
                  snd (delivery_report ids (map (\<lambda>k. try_send (net k)) [i..<i + length ids])))"
proof (induction ids arbitrary: i delivered errors)
  case Nil
  then show ?case by (simp add: delivery_report_def)
next
  case (Cons a ids)
  have upt: "[i..<Suc (i + length ids)] = i # [Suc i..<Suc (i + length ids)]"
    by (subst upt_rec) simp
  from Cons.prems have enc: "utf8_encodable a" and rest: "list_all utf8_encodable ids"
    by simp_all
  have send: "send_telegram_message bot_token a text thread_id (net i) = Inr (try_send (net i))"
    using assms enc by (simp add: send_telegram_message_def)
  show ?case
  proof (cases rule: try_send_cases [of "net i"])
    case 1
    then show ?thesis
      using Cons.IH [OF rest, of "Suc i" "delivered + 1" errors] send
      by (simp add: upt delivery_report_def del: upt_Suc)
  next
    case (2 code)
    then show ?thesis
      using Cons.IH [OF rest, of "Suc i" delivered "errors @ [a @ ascii '':'' @ code]"] send
      by (simp add: upt delivery_report_def del: upt_Suc)
  qed
qed

lemma no_success_iff: "fst (delivery_report ids outcomes) = 0 \<longleftrightarrow> \<not> list_ex fst outcomes"
  by (induction outcomes) (auto simp add: delivery_report_def)

lemma report_accounts_for_all:
  "length ids = length outcomes \<Longrightarrow>
   fst (delivery_report ids outcomes) + length (snd (delivery_report ids outcomes)) = length ids"
proof (induction ids outcomes rule: list_induct2)
  case Nil
  then show ?case by (simp add: delivery_report_def)
next
  case (Cons a ids r outcomes)
  then show ?case by (simp add: delivery_report_def)
qed

lemma all_failed_report:
  "length ids = length outcomes \<Longrightarrow> \<not> list_ex fst outcomes \<Longrightarrow>
   snd (delivery_report ids outcomes) =
     map (\<lambda>(admin_id, r). admin_id @ ascii '':'' @ the (snd r)) (zip ids outcomes)"
proof (induction ids outcomes rule: list_induct2)
  case Nil
  then show ?case by (simp add: delivery_report_def)
next
  case (Cons a ids r outcomes)
  then show ?case by (simp add: delivery_report_def)
qed

text \<open>
  What the fan-out does when every call to \<open>send_telegram_message\<close> returns. Take a
  configured server and a request that passes the body guards and the field validation,
  and let no outbound call raise before its \<^verbatim>\<open>try\<close> block (the optional thread id,
  when set, reads as an integer; the recipient ids and the message are encodable as
  UTF-8). Let \<open>outcomes\<close> be the outcomes of the calls to the recipients, in the
  configured order. Then the handler answers 200 with the delivered count when at least
  one recipient succeeded, and otherwise, that is exactly when all recipients failed, it
  calls \<open>respond_json\<close> with 502, \<open>telegram_send_failed\<close> and the failure list in
  \<open>details\<close>; that call writes the response when every failure descriptor is
  encodable as UTF-8 and raises otherwise. The delivered count is the number of
  recipients that succeeded, the failure list has one entry for every recipient that
  failed, and when all failed it is the list of \<open>recipient_id:error_code\<close> for all
  recipients in the configured order.
\<close>

lemma fan_out_report_when_calls_return:
  assumes path: "path req = ascii ''/api/request''"
    and tok: "py_strip (getenv (BOT_TOKEN env) []) \<noteq> []"
    and ids: "parse_admin_ids env \<noteq> []"
    and thr: "py_strip (getenv (TELEGRAM_THREAD_ID env) []) = [] \<or>
              py_int (py_strip (getenv (TELEGRAM_THREAD_ID env) [])) \<noteq> None"
    and len: "py_int (case content_length req of None \<Rightarrow> ascii ''0'' | Some h \<Rightarrow> h) = Some n"
      "0 < n" "n \<le> MAX_BODY_BYTES"
    and dec: "utf8_decode (take (nat n) (rfile req)) = Some decoded"
    and loads: "json_loads w decoded = Loaded (JObj kvs)"
    and valid: "validate_payload (map_of kvs) = (Some v, None)"
    and enc_ids: "list_all utf8_encodable (parse_admin_ids env)"
    and enc_text: "utf8_encodable
                     (build_admin_message v
                        (case client_address req of Some host \<Rightarrow> host | None \<Rightarrow> ascii ''-'')
                        (strftime_now w))"
    and outcomes: "outcomes = map (\<lambda>i. try_send (telegram w i)) [0..<length (parse_admin_ids env)]"
  shows "do_POST env w req =
           (if list_ex fst outcomes
            then Response 200
                   (JObj [(ascii ''ok'', JBool True),
                          (ascii ''delivered'',
                           JInt (int (fst (delivery_report (parse_admin_ids env) outcomes))))])
            else if list_all utf8_encodable (snd (delivery_report (parse_admin_ids env) outcomes))
            then Response 502
                   (JObj [(ascii ''ok'', JBool False),
                          (ascii ''error'', JStr (ascii ''telegram_send_failed'')),
                          (ascii ''details'',
                           JArr (map JStr (snd (delivery_report (parse_admin_ids env) outcomes))))])
            else Unhandled UnicodeEncodeError) \<and>
         fst (delivery_report (parse_admin_ids env) outcomes) = length (filter fst outcomes) \<and>
         fst (delivery_report (parse_admin_ids env) outcomes) +
           length (snd (delivery_report (parse_admin_ids env) outcomes)) =
           length (parse_admin_ids env) \<and>
         (\<not> list_ex fst outcomes \<longrightarrow>
            snd (delivery_report (parse_admin_ids env) outcomes) =
              map (\<lambda>(admin_id, r). admin_id @ ascii '':'' @ the (snd r))
                (zip (parse_admin_ids env) outcomes))"
proof -
  let ?ids = "parse_admin_ids env"
  let ?t = "py_strip (getenv (TELEGRAM_THREAD_ID env) [])"
  let ?thread = "if ?t \<noteq> [] then Some ?t else None"
  let ?text = "build_admin_message v
                 (case client_address req of Some host \<Rightarrow> host | None \<Rightarrow> ascii ''-'')
                 (strftime_now w)"
  have thread_ok: "\<not> (py_truthy ?thread \<and> py_int (the ?thread) = None)"
    using thr by auto
  have loop: "fan_out (py_strip (getenv (BOT_TOKEN env) [])) ?text ?thread (telegram w) 0 ?ids 0 [] =
                Inr (fst (delivery_report ?ids outcomes), snd (delivery_report ?ids outcomes))"
    using fan_out_report_from [OF thread_ok enc_text enc_ids,
        of "py_strip (getenv (BOT_TOKEN env) [])" "telegram w" 0 0 "[]"]
    by (simp add: outcomes)
  have len_eq: "length ?ids = length outcomes" by (simp add: outcomes)
  have post: "do_POST env w req =
           (if fst (delivery_report ?ids outcomes) = 0
            then respond_json 502
                   (JObj [(ascii ''ok'', JBool False),
                          (ascii ''error'', JStr (ascii ''telegram_send_failed'')),
                          (ascii ''details'', JArr (map JStr (snd (delivery_report ?ids outcomes))))])
            else respond_json 200
                   (JObj [(ascii ''ok'', JBool True),
                          (ascii ''delivered'', JInt (int (fst (delivery_report ?ids outcomes))))]))"
    using path tok ids len dec loads valid
    by (simp add: do_POST_def Let_def loop case_prod_beta)
  have answer: "do_POST env w req =
           (if list_ex fst outcomes
            then Response 200
                   (JObj [(ascii ''ok'', JBool True),
                          (ascii ''delivered'', JInt (int (fst (delivery_report ?ids outcomes))))])
            else if list_all utf8_encodable (snd (delivery_report ?ids outcomes))
            then Response 502
                   (JObj [(ascii ''ok'', JBool False),
                          (ascii ''error'', JStr (ascii ''telegram_send_failed'')),
                          (ascii ''details'', JArr (map JStr (snd (delivery_report ?ids outcomes))))])
            else Unhandled UnicodeEncodeError)"
    using no_success_iff [of ?ids outcomes]
    by (simp only: post respond_json_details respond_json_delivered split: if_splits) simp
  have count: "fst (delivery_report ?ids outcomes) = length (filter fst outcomes)"
    by (simp add: delivery_report_def)
  from answer count report_accounts_for_all [OF len_eq] all_failed_report [OF len_eq]
  show ?thesis by blast
qed

lemma fan_out_report_examples:
  "path sample_request = ascii ''/api/request'' \<and>
   parse_admin_ids sample_env = [ascii ''A'', ascii ''B'', ascii ''C''] \<and>
   validate_payload (map_of sample_payload) \<noteq> (None, None) \<and>
   do_POST sample_env
     (sample_world (\<lambda>i. if i = 0 then RaisedURLError else Replied True DescriptionFalsy))
     sample_request =
     Response 200 (JObj [(ascii ''ok'', JBool True), (ascii ''delivered'', JInt 2)]) \<and>
   delivery_report (parse_admin_ids sample_env)
     (map (\<lambda>i. try_send (if i = 0 then RaisedURLError else Replied True DescriptionFalsy))
        [0..<length (parse_admin_ids sample_env)]) =
     (2, [ascii ''A:telegram_unreachable'']) \<and>
   do_POST sample_env
     (sample_world (\<lambda>i. if i = 0 then RaisedURLError
                        else if i = 1 then RaisedHTTPError 403
                        else Replied False (DescriptionText 98 (ascii ''ad''))))
     sample_request =
     Response 502
       (JObj [(ascii ''ok'', JBool False),
              (ascii ''error'', JStr (ascii ''telegram_send_failed'')),
              (ascii ''details'',
               JArr [JStr (ascii ''A:telegram_unreachable''), JStr (ascii ''B:http_403''),
                     JStr (ascii ''C:bad'')])])"
proof -
  let ?net1 = "\<lambda>i::nat. if i = 0 then RaisedURLError else Replied True DescriptionFalsy"
  let ?net2 = "\<lambda>i::nat. if i = 0 then RaisedURLError
                        else if i = 1 then RaisedHTTPError 403
                        else Replied False (DescriptionText 98 (ascii ''ad''))"
  have path: "path sample_request = ascii ''/api/request''" by (simp add: sample_request_def)
  have ids: "parse_admin_ids sample_env \<noteq> []" by (simp add: sample_env_ids)
  have tok: "py_strip (getenv (BOT_TOKEN sample_env) []) \<noteq> []"
    by (simp add: sample_env_token ascii_def)
  have thr: "py_strip (getenv (TELEGRAM_THREAD_ID sample_env) []) = [] \<or>
             py_int (py_strip (getenv (TELEGRAM_THREAD_ID sample_env) [])) \<noteq> None"
    by (simp add: sample_env_thread)
  have pos: "(0::int) < 76" and bound: "(76::int) \<le> MAX_BODY_BYTES"
    by (simp_all add: MAX_BODY_BYTES_def)
  have loads: "json_loads (sample_world net) sample_body = Loaded (JObj sample_payload)" for net
    by (simp add: sample_world_def)
  have enc_ids: "list_all utf8_encodable (parse_admin_ids sample_env)"
    by (simp add: sample_env_ids utf8_encodable_def ascii_def)
  have http: "py_str_int 403 = ascii ''403''"
    by (simp add: py_str_int_def py_str_nat.simps ascii_def)
  have outs1: "map (\<lambda>i. try_send (telegram (sample_world ?net1) i))
                 [0..<length (parse_admin_ids sample_env)] =
               [(False, Some (ascii ''telegram_unreachable'')), (True, None), (True, None)]"
    by (simp add: sample_env_ids sample_world_def upt_3 try_send_def)
  have outs2: "map (\<lambda>i. try_send (telegram (sample_world ?net2) i))
                 [0..<length (parse_admin_ids sample_env)] =
               [(False, Some (ascii ''telegram_unreachable'')), (False, Some (ascii ''http_403'')),
                (False, Some (ascii ''bad''))]"
    by (simp add: sample_env_ids sample_world_def upt_3 try_send_def http) (simp add: ascii_def)
  have some: "do_POST sample_env (sample_world ?net1) sample_request =
     Response 200 (JObj [(ascii ''ok'', JBool True), (ascii ''delivered'', JInt 2)])"
    using fan_out_report_when_calls_return [OF path tok ids thr sample_length pos bound
        sample_decode loads validate_sample enc_ids sample_text_encodable refl, of ?net1,
        unfolded outs1]
    by (simp add: delivery_report_def)
  have none: "do_POST sample_env (sample_world ?net2) sample_request =
     Response 502
       (JObj [(ascii ''ok'', JBool False),
              (ascii ''error'', JStr (ascii ''telegram_send_failed'')),
              (ascii ''details'',
               JArr [JStr (ascii ''A:telegram_unreachable''), JStr (ascii ''B:http_403''),
                     JStr (ascii ''C:bad'')])])"
    using fan_out_report_when_calls_return [OF path tok ids thr sample_length pos bound
        sample_decode loads validate_sample enc_ids sample_text_encodable refl, of ?net2,
        unfolded outs2]
    by (simp add: delivery_report_def sample_env_ids utf8_encodable_def ascii_def)
  have report: "delivery_report (parse_admin_ids sample_env)
     (map (\<lambda>i. try_send (if i = 0 then RaisedURLError else Replied True DescriptionFalsy))
        [0..<length (parse_admin_ids sample_env)]) =
     (2, [ascii ''A:telegram_unreachable''])"
    by (simp add: sample_env_ids upt_3 try_send_def delivery_report_def ascii_def)
  from path some none report show ?thesis
    by (simp add: sample_env_ids validate_sample)
qed

lemma surrogate_validates:
  "validate_payload (map_of surrogate_payload) =
     (Some \<lparr>name = [55296], phone = ascii ''+7 (900) 123-45-67'', car = ascii ''BMW X5'',
             service = ascii ''wash'', comment = []\<rparr>, None)"
  by (simp add: validate_payload_def surrogate_payload_def Let_def eval_strings)

lemma surrogate_length:
  "py_int (case content_length surrogate_request of None \<Rightarrow> ascii ''0'' | Some h \<Rightarrow> h) = Some 78"
  by (simp add: surrogate_request_def py_int_examples)

lemma surrogate_decode:
  "utf8_decode (take (nat 78) (rfile surrogate_request)) = Some surrogate_body"
  by (simp add: surrogate_request_def surrogate_body_def)

lemma surrogate_text_not_encodable:
  "\<not> utf8_encodable
       (build_admin_message
          \<lparr>name = [55296], phone = ascii ''+7 (900) 123-45-67'', car = ascii ''BMW X5'',
             service = ascii ''wash'', comment = []\<rparr>
          (ascii ''127.0.0.1'') (ascii ''04.11.2026 12:00''))"
  by (simp add: utf8_encodable_def build_admin_message_def)

text \<open>
  Claim C3 fails where the fan-out raises instead of reporting. In
  \<open>send_telegram_message\<close> the encoding of the request body (line 129) and
  \<^verbatim>\<open>int(thread_id)\<close> (line 125) stand before the \<^verbatim>\<open>try\<close> of line 133, and
  \<open>respond_json\<close> encodes the failure list on line 220 outside any handler. So with the
  recipients A, B and C configured: a request whose name is the lone surrogate
  \<^verbatim>\<open>"\ud800"\<close> makes the first call raise \<^verbatim>\<open>UnicodeEncodeError\<close>, whatever the
  messaging API would have answered; with \<^verbatim>\<open>TELEGRAM_THREAD_ID=abc\<close> the first call
  raises \<^verbatim>\<open>ValueError\<close>; and when all three recipients fail with the description
  \<^verbatim>\<open>"\ud800"\<close>, the failure list is built but \<open>respond_json\<close> raises
  \<^verbatim>\<open>UnicodeEncodeError\<close>. In each case no recipient succeeded, the exception leaves
  \<^verbatim>\<open>do_POST\<close>, and neither the 502 response nor any report is written.
\<close>

theorem fan_out_raises_without_report:
  "do_POST sample_env (surrogate_world net) surrogate_request = Unhandled UnicodeEncodeError \<and>
   do_POST (sample_env\<lparr>TELEGRAM_THREAD_ID := Some (ascii ''abc'')\<rparr>) (sample_world net)
     sample_request = Unhandled ValueError \<and>
   do_POST sample_env (sample_world (\<lambda>i. Replied False (DescriptionText 55296 [])))
     sample_request = Unhandled UnicodeEncodeError"
proof -
  have tok: "py_strip (getenv (BOT_TOKEN sample_env) []) \<noteq> []"
    by (simp add: sample_env_token ascii_def)
  have no_thread: "py_strip (getenv (TELEGRAM_THREAD_ID sample_env) []) = []"
    by (rule sample_env_thread)
  have a_enc: "utf8_encodable (ascii ''A'')" by (rule ascii_encodable)
  have first: "do_POST sample_env (surrogate_world net) surrogate_request =
                 Unhandled UnicodeEncodeError"
  proof -
    have path: "path surrogate_request = ascii ''/api/request''"
      by (simp add: surrogate_request_def)
    have loads: "json_loads (surrogate_world net) surrogate_body = Loaded (JObj surrogate_payload)"
      by (simp add: surrogate_world_def)
    have client: "client_address surrogate_request = Some (ascii ''127.0.0.1'')"
      and clock: "strftime_now (surrogate_world net) = ascii ''04.11.2026 12:00''"
      by (simp_all add: surrogate_request_def surrogate_world_def)
    have dec: "utf8_decode (take 78 (rfile surrogate_request)) = Some surrogate_body"
      using surrogate_decode by simp
    show ?thesis
      using tok surrogate_text_not_encodable a_enc
      by (simp add: do_POST_def Let_def path sample_env_ids no_thread surrogate_length
          dec loads surrogate_validates client clock MAX_BODY_BYTES_def
          send_telegram_message_def)
  qed
  have second: "do_POST (sample_env\<lparr>TELEGRAM_THREAD_ID := Some (ascii ''abc'')\<rparr>) (sample_world net)
                  sample_request = Unhandled ValueError"
  proof -
    let ?env = "sample_env\<lparr>TELEGRAM_THREAD_ID := Some (ascii ''abc'')\<rparr>"
    have path: "path sample_request = ascii ''/api/request''"
      by (simp add: sample_request_def)
    have tok': "py_strip (getenv (BOT_TOKEN ?env) []) \<noteq> []"
      using tok by (simp add: sample_env_def)
    have ids': "parse_admin_ids ?env = [ascii ''A'', ascii ''B'', ascii ''C'']"
      using sample_env_ids by (simp add: parse_admin_ids_def sample_env_def)
    have thread: "py_strip (getenv (Some (ascii ''abc'')) []) = ascii ''abc''"
      by (simp add: getenv_def py_strip_def is_space_def ascii_def)
    have abc: "ascii ''abc'' \<noteq> []" by (simp add: ascii_def)
    have loads: "json_loads (sample_world net) sample_body = Loaded (JObj sample_payload)"
      by (simp add: sample_world_def)
    have dec: "utf8_decode (take 76 (rfile sample_request)) = Some sample_body"
      using sample_decode by simp
    show ?thesis
      using tok' abc
      by (simp add: do_POST_def Let_def path ids' thread sample_length dec loads
          validate_sample MAX_BODY_BYTES_def send_telegram_message_def py_int_examples)
  qed
  have third: "do_POST sample_env (sample_world (\<lambda>i. Replied False (DescriptionText 55296 [])))
                 sample_request = Unhandled UnicodeEncodeError"
  proof -
    let ?w = "sample_world (\<lambda>i. Replied False (DescriptionText 55296 []))"
    have path: "path sample_request = ascii ''/api/request''"
      by (simp add: sample_request_def)
    have ids: "parse_admin_ids sample_env \<noteq> []" by (simp add: sample_env_ids)
    have thr: "py_strip (getenv (TELEGRAM_THREAD_ID sample_env) []) = [] \<or>
               py_int (py_strip (getenv (TELEGRAM_THREAD_ID sample_env) [])) \<noteq> None"
      by (simp add: no_thread)
    have pos: "(0::int) < 76" and bound: "(76::int) \<le> MAX_BODY_BYTES"
      by (simp_all add: MAX_BODY_BYTES_def)
    have loads: "json_loads ?w sample_body = Loaded (JObj sample_payload)"
      by (simp add: sample_world_def)
    have enc_ids: "list_all utf8_encodable (parse_admin_ids sample_env)"
      by (simp add: sample_env_ids ascii_encodable)
    have outs: "map (\<lambda>i. try_send (telegram ?w i)) [0..<length (parse_admin_ids sample_env)] =
                  [(False, Some [55296]), (False, Some [55296]), (False, Some [55296])]"
      by (simp add: sample_env_ids sample_world_def upt_3 try_send_def)
    show ?thesis
      using fan_out_report_when_calls_return [OF path tok ids thr sample_length pos bound
          sample_decode loads validate_sample enc_ids sample_text_encodable refl, unfolded outs]
      by (simp add: delivery_report_def sample_env_ids utf8_encodable_def)
  qed
  from first second third show ?thesis by blast
qed


section \<open>Request dispatcher: properties\<close>

text \<open>
  Claim C9. On \<open>/api/request\<close>, when the bot credential is missing or the recipient
  list is empty, the response is 500 \<open>server_not_configured\<close> whatever the request
  holds: the header, the body and the world outside are not looked at.
\<close>

theorem configuration_check_precedes_body_guards:
  assumes "path req = ascii ''/api/request''"
    and "py_strip (getenv (BOT_TOKEN env) []) = [] \<or> parse_admin_ids env = []"
  shows "do_POST env w req =
           Response 500
             (JObj [(ascii ''ok'', JBool False),
                    (ascii ''error'', JStr (ascii ''server_not_configured''))])"
  using assms by (auto simp add: do_POST_def Let_def respond_json_error)


theorem configuration_check_precedes_body_guards_witness:
  "path sample_request = ascii ''/api/request'' \<and>
   parse_admin_ids (sample_env\<lparr>ADMIN_IDS := Some (ascii '' , '')\<rparr>) = [] \<and>
   do_POST (sample_env\<lparr>ADMIN_IDS := Some (ascii '' , '')\<rparr>) (sample_world (\<lambda>i. RaisedURLError))
     sample_request =
     Response 500
       (JObj [(ascii ''ok'', JBool False),
              (ascii ''error'', JStr (ascii ''server_not_configured''))]) \<and>
   do_POST (sample_env\<lparr>ADMIN_IDS := Some (ascii '' , '')\<rparr>) (sample_world (\<lambda>i. RaisedURLError))
     (sample_request\<lparr>content_length := None, rfile := [255]\<rparr>) =
     Response 500
       (JObj [(ascii ''ok'', JBool False),
              (ascii ''error'', JStr (ascii ''server_not_configured''))])"
proof -
  let ?env = "sample_env\<lparr>ADMIN_IDS := Some (ascii '' , '')\<rparr>"
  have path: "path sample_request = ascii ''/api/request''" by (simp add: sample_request_def)
  have path': "path (sample_request\<lparr>content_length := None, rfile := [255]\<rparr>) = ascii ''/api/request''"
    by (simp add: sample_request_def)
  have ids: "parse_admin_ids ?env = []"
    by (simp add: sample_env_def parse_admin_ids_def getenv_def py_strip_def is_space_def ascii_def)
  then have unconf: "py_strip (getenv (BOT_TOKEN ?env) []) = [] \<or> parse_admin_ids ?env = []"
    by simp
  from path ids configuration_check_precedes_body_guards [OF path unconf]
    configuration_check_precedes_body_guards [OF path' unconf]
  show ?thesis by simp
qed

text \<open>
  The body guards of a configured server, in the order of the source: the declared
  length, the JSON syntax, the type of the parsed value.
\<close>

lemma body_size_guard:
  assumes "path req = ascii ''/api/request''"
    and "py_strip (getenv (BOT_TOKEN env) []) \<noteq> []"
    and "parse_admin_ids env \<noteq> []"
    and "len = (case py_int (case content_length req of None \<Rightarrow> ascii ''0'' | Some h \<Rightarrow> h) of
                  None \<Rightarrow> 0 | Some n \<Rightarrow> n)"
    and "len \<le> 0 \<or> len > 20000"
  shows "do_POST env w req =
           Response 400
             (JObj [(ascii ''ok'', JBool False),
                    (ascii ''error'', JStr (ascii ''invalid_body_size''))])"
  using assms by (auto simp add: do_POST_def Let_def MAX_BODY_BYTES_def respond_json_error)

lemma absent_content_length:
  assumes "path req = ascii ''/api/request''"
    and "py_strip (getenv (BOT_TOKEN env) []) \<noteq> []"
    and "parse_admin_ids env \<noteq> []"
    and "content_length req = None"
  shows "do_POST env w req =
           Response 400
             (JObj [(ascii ''ok'', JBool False),
                    (ascii ''error'', JStr (ascii ''invalid_body_size''))])"
  using assms(4) by (intro body_size_guard [OF assms(1-3) refl]) (simp add: py_int_examples)

lemma invalid_json_guard:
  assumes "path req = ascii ''/api/request''"
    and "py_strip (getenv (BOT_TOKEN env) []) \<noteq> []"
    and "parse_admin_ids env \<noteq> []"
    and "py_int (case content_length req of None \<Rightarrow> ascii ''0'' | Some h \<Rightarrow> h) = Some n"
    and "0 < n" "n \<le> 20000"
    and "utf8_decode (take (nat n) (rfile req)) = Some decoded"
    and "json_loads w decoded = LoadsRaised JSONDecodeError"
  shows "do_POST env w req =
           Response 400
             (JObj [(ascii ''ok'', JBool False),
                    (ascii ''error'', JStr (ascii ''invalid_json''))])"
  using assms by (simp add: do_POST_def Let_def MAX_BODY_BYTES_def respond_json_error)

lemma invalid_payload_guard:
  assumes "path req = ascii ''/api/request''"
    and "py_strip (getenv (BOT_TOKEN env) []) \<noteq> []"
    and "parse_admin_ids env \<noteq> []"
    and "py_int (case content_length req of None \<Rightarrow> ascii ''0'' | Some h \<Rightarrow> h) = Some n"
    and "0 < n" "n \<le> 20000"
    and "utf8_decode (take (nat n) (rfile req)) = Some decoded"
    and "json_loads w decoded = Loaded payload"
    and "\<forall>kvs. payload \<noteq> JObj kvs"
  shows "do_POST env w req =
           Response 400
             (JObj [(ascii ''ok'', JBool False),
                    (ascii ''error'', JStr (ascii ''invalid_payload''))])"
  using assms
  by (cases payload) (simp_all add: do_POST_def Let_def MAX_BODY_BYTES_def respond_json_error)


text \<open>
  Claim C5 fails on a body that is not UTF-8. \<^verbatim>\<open>raw.decode("utf-8")\<close> stands inside the
  \<^verbatim>\<open>try\<close> of lines 285 to 289, but the handler catches \<^verbatim>\<open>json.JSONDecodeError\<close>
  only, and \<^verbatim>\<open>UnicodeDecodeError\<close> is not one: for the one-byte body \<^verbatim>\<open>b"\xff"\<close> with
  \<^verbatim>\<open>Content-Length: 1\<close> the exception leaves \<^verbatim>\<open>do_POST\<close>, and no response with
  \<open>invalid_json\<close> is written.
\<close>

theorem non_utf8_body_is_unhandled:
  "do_POST sample_env w (sample_request\<lparr>content_length := Some (ascii ''1''), rfile := [255]\<rparr>) =
     Unhandled UnicodeDecodeError"
proof -
  have tok: "py_strip (getenv (BOT_TOKEN sample_env) []) \<noteq> []"
    by (simp add: sample_env_token ascii_def)
  show ?thesis
    using tok
    by (simp add: do_POST_def Let_def sample_env_ids sample_request_def py_int_examples
        MAX_BODY_BYTES_def)
qed

section \<open>Whitespace splitting and joining\<close>

lemma py_split_Nil: "py_split [] = []"
  by (simp add: py_split.simps)

lemma py_split_space: "is_space c \<Longrightarrow> py_split (c # s) = py_split s"
  by (subst py_split.simps, subst (2) py_split.simps) simp

lemma py_split_word:
  "\<not> is_space c \<Longrightarrow>
   py_split (c # s) = (c # takeWhile (\<lambda>x. \<not> is_space x) s) # py_split (dropWhile (\<lambda>x. \<not> is_space x) s)"
  by (subst py_split.simps) simp

lemma py_split_word_space:
  "\<not> is_space c \<Longrightarrow> is_space d \<Longrightarrow> py_split (c # d # s) = [c] # py_split s"
  by (simp add: py_split_word py_split_space)

lemma py_split_word_cont:
  "\<not> is_space c \<Longrightarrow> \<not> is_space d \<Longrightarrow>
   py_split (c # d # s) = (c # hd (py_split (d # s))) # tl (py_split (d # s))"
  by (simp add: py_split_word)

lemma py_split_nonempty: "s \<noteq> [] \<Longrightarrow> \<not> is_space (last s) \<Longrightarrow> py_split s \<noteq> []"
proof (induction s)
  case Nil
  then show ?case by simp
next
  case (Cons c s)
  show ?case
  proof (cases "is_space c")
    case True
    with Cons show ?thesis by (cases s) (auto simp add: py_split_space)
  next
    case False
    then show ?thesis by (simp add: py_split_word)
  qed
qed

lemma py_join_Cons: "ws \<noteq> [] \<Longrightarrow> py_join sep (w # ws) = w @ sep @ py_join sep ws"
  by (cases ws) simp_all

lemma py_join_Cons_char: "py_join sep ((c # w) # ws) = c # py_join sep (w # ws)"
  by (cases ws) simp_all

lemma collapse_ws_join_split:
  "s = [] \<or> \<not> is_space (last s) \<Longrightarrow>
   collapse_ws s = (if s \<noteq> [] \<and> is_space (hd s) then [32] else []) @ py_join [32] (py_split s)"
proof (induction s rule: collapse_ws.induct)
  case 1
  then show ?case by (simp add: py_split_Nil)
next
  case (2 c)
  then show ?case by (simp add: py_split_word py_split_Nil)
next
  case (3 c d cs)
  from "3.prems" have tail: "d # cs = [] \<or> \<not> is_space (last (d # cs))" by simp
  then have ne: "py_split (d # cs) \<noteq> []" by (simp add: py_split_nonempty)
  note IH = "3.IH"
  show ?case
  proof (cases "is_space c")
    case c: True
    show ?thesis
    proof (cases "is_space d")
      case True
      with c IH(1) tail show ?thesis by (simp add: py_split_space)
    next
      case False
      with c IH(2) tail show ?thesis by (simp add: py_split_space)
    qed
  next
    case c: False
    show ?thesis
    proof (cases "is_space d")
      case True
      with c IH(2) tail ne show ?thesis
        by (simp add: py_split_word_space py_split_space py_join_Cons)
    next
      case False
      have "py_join [32] (py_split (c # d # cs)) = c # py_join [32] (py_split (d # cs))"
        using c False ne by (simp add: py_split_word_cont py_join_Cons_char)
      with c False IH(2) tail show ?thesis by simp
    qed
  qed
qed

lemma py_split_snoc_space: "is_space c \<Longrightarrow> py_split (s @ [c]) = py_split s"
proof (induction s)
  case Nil
  then show ?case by (simp add: py_split_space)
next
  case (Cons a s)
  show ?case
  proof (cases "is_space a")
    case True
    with Cons show ?thesis by (simp add: py_split_space)
  next
    case a: False
    show ?thesis
    proof (cases s)
      case Nil
      with a Cons.prems show ?thesis
        by (simp add: py_split_word_space py_split_word py_split_space py_split_Nil)
    next
      case (Cons d r)
      show ?thesis
      proof (cases "is_space d")
        case True
        with a Cons Cons.IH [OF Cons.prems] show ?thesis
          by (simp add: py_split_word_space py_split_space)
      next
        case False
        with a Cons Cons.IH [OF Cons.prems] show ?thesis
          by (simp add: py_split_word_cont)
      qed
    qed
  qed
qed

lemma py_split_lstrip: "py_split (dropWhile is_space s) = py_split s"
  by (induction s) (simp_all add: py_split_space)

lemma rstrip_snoc:
  "rev (dropWhile is_space (rev (s @ [c]))) =
     (if is_space c then rev (dropWhile is_space (rev s)) else s @ [c])"
  by simp

lemma py_split_rstrip: "py_split (rev (dropWhile is_space (rev s))) = py_split s"
proof (induction s rule: rev_induct)
  case Nil
  then show ?case by simp
next
  case (snoc c s)
  then show ?case by (simp add: py_split_snoc_space)
qed

lemma py_split_strip: "py_split (py_strip s) = py_split s"
  by (simp add: py_strip_def py_split_rstrip py_split_lstrip)

lemma py_split_words:
  "w \<in> set (py_split s) \<Longrightarrow> w \<noteq> [] \<and> list_all (\<lambda>c. \<not> is_space c) w"
proof (induction s arbitrary: w rule: length_induct)
  case (1 s)
  show ?case
  proof (cases "dropWhile is_space s")
    case Nil
    with "1.prems" show ?thesis by (simp add: py_split.simps [of s])
  next
    case (Cons c cs)
    then have nsp: "\<not> is_space c" by (simp add: dropWhile_eq_Cons_conv)
    have shorter: "length (dropWhile (\<lambda>x. \<not> is_space x) (c # cs)) < length s"
    proof -
      have "length (dropWhile (\<lambda>x. \<not> is_space x) cs) \<le> length cs" by (rule length_dropWhile_le)
      moreover have "length (c # cs) \<le> length s"
        using length_dropWhile_le [of is_space s] by (simp only: Cons)
      ultimately show ?thesis using nsp by simp
    qed
    from "1.prems" Cons have "w = takeWhile (\<lambda>x. \<not> is_space x) (c # cs) \<or>
        w \<in> set (py_split (dropWhile (\<lambda>x. \<not> is_space x) (c # cs)))"
      by (simp add: py_split.simps [of s])
    then show ?thesis
    proof
      assume "w = takeWhile (\<lambda>x. \<not> is_space x) (c # cs)"
      then show ?thesis using nsp by (auto simp add: list_all_iff dest: set_takeWhileD)
    next
      assume "w \<in> set (py_split (dropWhile (\<lambda>x. \<not> is_space x) (c # cs)))"
      with "1.IH" shorter show ?thesis by blast
    qed
  qed
qed

lemma py_join_spaces:
  "(\<And>w. w \<in> set ws \<Longrightarrow> list_all (\<lambda>c. \<not> is_space c) w) \<Longrightarrow>
   list_all (\<lambda>c. is_space c \<longrightarrow> c = 32) (py_join [32] ws)"
proof (induction ws)
  case Nil
  then show ?case by simp
next
  case (Cons w ws)
  then show ?case by (cases ws) (auto simp add: list_all_iff)
qed

lemma py_split_empty_all_space: "s \<noteq> [] \<Longrightarrow> py_split s = [] \<Longrightarrow> is_space (last s)"
  using py_split_nonempty by blast

lemma collapse_ws_decompose:
  "collapse_ws s =
     (if s \<noteq> [] \<and> is_space (hd s) then [32] else []) @ py_join [32] (py_split s) @
     (if py_split s \<noteq> [] \<and> is_space (last s) then [32] else [])"
proof (induction s rule: collapse_ws.induct)
  case 1
  then show ?case by (simp add: py_split_Nil)
next
  case (2 c)
  then show ?case by (simp add: py_split_word py_split_space py_split_Nil)
next
  case (3 c d cs)
  note IH = "3.IH"
  show ?case
  proof (cases "is_space c")
    case c: True
    show ?thesis
    proof (cases "is_space d")
      case True
      with c IH(1) show ?thesis by (simp add: py_split_space)
    next
      case False
      with c IH(2) show ?thesis by (simp add: py_split_space)
    qed
  next
    case c: False
    show ?thesis
    proof (cases "is_space d")
      case d: True
      show ?thesis
      proof (cases "py_split (d # cs) = []")
        case True
        then have "is_space (last (d # cs))" by (intro py_split_empty_all_space) simp_all
        with c d IH(2) True show ?thesis
          by (simp add: py_split_word_space py_split_space)
      next
        case False
        with c d IH(2) show ?thesis
          by (simp add: py_split_word_space py_split_space py_join_Cons)
      qed
    next
      case False
      have ne: "py_split (d # cs) \<noteq> []" using False by (simp add: py_split_word)
      have "py_join [32] (py_split (c # d # cs)) = c # py_join [32] (py_split (d # cs))"
        using c False ne by (simp add: py_split_word_cont py_join_Cons_char)
      moreover have "py_split (c # d # cs) \<noteq> []" using c by (simp add: py_split_word)
      ultimately show ?thesis using c False IH(2) ne by simp
    qed
  qed
qed

lemma py_join_edges:
  "ws \<noteq> [] \<Longrightarrow> (\<And>w. w \<in> set ws \<Longrightarrow> w \<noteq> []) \<Longrightarrow>
   py_join sep ws \<noteq> [] \<and> hd (py_join sep ws) = hd (hd ws) \<and>
   last (py_join sep ws) = last (last ws)"
proof (induction ws)
  case Nil
  then show ?case by simp
next
  case (Cons w ws)
  show ?case
  proof (cases ws)
    case Nil
    with Cons.prems show ?thesis by simp
  next
    case (Cons v vs)
    with Cons.IH Cons.prems show ?thesis by (simp add: py_join_Cons)
  qed
qed

lemma join_split_edges:
  "py_join [32] (py_split s) = [] \<or>
   (\<not> is_space (hd (py_join [32] (py_split s))) \<and> \<not> is_space (last (py_join [32] (py_split s))))"
proof (cases "py_split s = []")
  case True
  then show ?thesis by simp
next
  case False
  have words: "w \<in> set (py_split s) \<Longrightarrow> w \<noteq> [] \<and> list_all (\<lambda>c. \<not> is_space c) w" for w
    by (rule py_split_words)
  from False have "hd (py_split s) \<in> set (py_split s)" "last (py_split s) \<in> set (py_split s)"
    by simp_all
  with words have "\<not> is_space (hd (hd (py_split s)))" "\<not> is_space (last (last (py_split s)))"
    by (auto simp add: list_all_iff)
  with py_join_edges [OF False, of "[32]"] words show ?thesis by auto
qed

lemma dropWhile_unchanged: "y \<noteq> [] \<Longrightarrow> \<not> P (hd y) \<Longrightarrow> dropWhile P y = y"
  by (cases y) simp_all

lemma py_strip_padded:
  assumes "x = [] \<or> (\<not> is_space (hd x) \<and> \<not> is_space (last x))"
    and "list_all is_space a" and "list_all is_space b"
  shows "py_strip (a @ x @ b) = x"
proof (cases "x = []")
  case True
  from assms(2,3) have "\<forall>c\<in>set (a @ b). is_space c"
    by (simp add: list_all_iff ball_Un)
  then have "dropWhile is_space (a @ b) = []"
    by (simp only: dropWhile_eq_Nil_conv)
  then have "py_strip (a @ [] @ b) = []"
    by (simp only: py_strip_def append_Nil rev.simps dropWhile.simps)
  with True show ?thesis by (simp only:)
next
  case False
  with assms have hd: "\<not> is_space (hd x)" and last: "\<not> is_space (last x)" by simp_all
  from assms(2) have a: "\<And>c. c \<in> set a \<Longrightarrow> is_space c" by (simp add: list_all_iff)
  from assms(3) have b: "\<And>c. c \<in> set (rev b) \<Longrightarrow> is_space c" by (simp add: list_all_iff)
  have "dropWhile is_space (a @ x @ b) = dropWhile is_space (x @ b)"
    using a by (rule dropWhile_append2)
  also have "\<dots> = x @ b"
    using False hd by (intro dropWhile_unchanged) simp_all
  finally have left: "dropWhile is_space (a @ x @ b) = x @ b" .
  have "dropWhile is_space (rev (x @ b)) = dropWhile is_space (rev b @ rev x)"
    by (simp only: rev_append)
  also have "\<dots> = dropWhile is_space (rev x)"
    using b by (rule dropWhile_append2)
  also have "\<dots> = rev x"
    using False last by (intro dropWhile_unchanged) (simp_all add: hd_rev)
  finally have "rev (dropWhile is_space (rev (x @ b))) = x" by (simp only: rev_rev_ident)
  with left show ?thesis by (simp only: py_strip_def)
qed

lemma strip_collapse: "py_strip (collapse_ws s) = py_join [32] (py_split s)"
proof -
  have "py_strip (collapse_ws s) =
        py_strip ((if s \<noteq> [] \<and> is_space (hd s) then [32] else []) @ py_join [32] (py_split s) @
          (if py_split s \<noteq> [] \<and> is_space (last s) then [32] else []))"
    by (subst collapse_ws_decompose) (rule refl)
  also have "\<dots> = py_join [32] (py_split s)"
    by (rule py_strip_padded [OF join_split_edges]) (simp_all add: is_space_def)
  finally show ?thesis .
qed

lemma py_strip_edges:
  "py_strip s = [] \<or> (\<not> is_space (hd (py_strip s)) \<and> \<not> is_space (last (py_strip s)))"
proof (cases "py_strip s = []")
  case True
  then show ?thesis by simp
next
  case False
  let ?t = "dropWhile is_space s"
  let ?u = "dropWhile is_space (rev ?t)"
  from False have u: "?u \<noteq> []" by (simp add: py_strip_def)
  have t: "?t \<noteq> []"
  proof
    assume "?t = []"
    then have "?u = []" by (simp only: rev.simps dropWhile.simps)
    with u show False by contradiction
  qed
  have "last (py_strip s) = hd ?u" by (simp only: py_strip_def last_rev)
  moreover have "\<not> is_space (hd ?u)" using u by (rule hd_dropWhile)
  moreover have "hd (py_strip s) = last ?u" by (simp only: py_strip_def hd_rev)
  moreover have "last ?u = last (rev ?t)"
  proof -
    have "rev ?t = takeWhile is_space (rev ?t) @ ?u" by simp
    then have "last (rev ?t) = last (takeWhile is_space (rev ?t) @ ?u)" by simp
    also have "\<dots> = last ?u" using u by (rule last_appendR)
    finally show ?thesis by simp
  qed
  moreover have "last (rev ?t) = hd ?t" by (simp only: last_rev)
  moreover have "\<not> is_space (hd ?t)" using t by (rule hd_dropWhile)
  ultimately show ?thesis by simp
qed

lemma collapse_strip: "collapse_ws (py_strip s) = py_join [32] (py_split s)"
proof -
  from py_strip_edges [of s]
  have "collapse_ws (py_strip s) =
          (if py_strip s \<noteq> [] \<and> is_space (hd (py_strip s)) then [32] else []) @
          py_join [32] (py_split (py_strip s))"
    by (intro collapse_ws_join_split) auto
  with py_strip_edges [of s] show ?thesis by (auto simp add: py_split_strip)
qed

section \<open>Text fields: properties\<close>

text \<open>
  Claim C8. For a string, \<open>clean_text\<close> gives the text with every run of whitespace
  collapsed to one space and both ends trimmed, cut to the maximal length after that
  normalization; collapsing before trimming and trimming before collapsing give the same
  text. The result is never longer than the maximal length, and a value that is not a
  string gives the empty string, as the empty string does.
\<close>

theorem clean_text_collapses_trims_truncates:
  "clean_text (JStr v) max_len = clean_text_spec v max_len \<and>
   clean_text (JStr v) max_len = take max_len (collapse_ws (py_strip v)) \<and>
   length (clean_text j max_len) \<le> max_len \<and>
   ((\<forall>s. j \<noteq> JStr s) \<longrightarrow> clean_text j max_len = [] \<and> clean_text j max_len = clean_text (JStr []) max_len)"
proof -
  have code: "clean_text (JStr v) max_len = take max_len (py_join [32] (py_split v))"
    by (simp add: py_split_strip ascii_def)
  have a: "clean_text (JStr v) max_len = clean_text_spec v max_len"
    by (simp only: code clean_text_spec_def strip_collapse)
  have b: "clean_text (JStr v) max_len = take max_len (collapse_ws (py_strip v))"
    by (simp only: code collapse_strip)
  have c: "length (clean_text j max_len) \<le> max_len"
    by (cases j) simp_all
  have d: "(\<forall>s. j \<noteq> JStr s) \<longrightarrow>
      clean_text j max_len = [] \<and> clean_text j max_len = clean_text (JStr []) max_len"
    by (cases j) (simp_all add: py_strip_def py_split_Nil)
  from a b c d show ?thesis by blast
qed

theorem clean_text_collapses_trims_truncates_witness:
  "(\<forall>s. JBool True \<noteq> JStr s) \<and> clean_text (JBool True) 4 = [] \<and>
   clean_text (JStr [32, 9, 97, 98, 32, 160, 10, 99, 100, 32]) 4 = [97, 98, 32, 99] \<and>
   clean_text_spec [32, 9, 97, 98, 32, 160, 10, 99, 100, 32] 4 = [97, 98, 32, 99]"
proof -
  have "clean_text_spec [32, 9, 97, 98, 32, 160, 10, 99, 100, 32] 4 = [97, 98, 32, 99]"
    by (simp add: clean_text_spec_def py_strip_def is_space_def)
  with clean_text_collapses_trims_truncates [of "[32, 9, 97, 98, 32, 160, 10, 99, 100, 32]" 4 "JBool True"]
  show ?thesis by simp
qed

section \<open>Comment field: properties\<close>

lemma replace_cr: "py_replace [13] [10] s = map (\<lambda>c. if c = 13 then 10 else c) s"
proof (induction s)
  case Nil
  then show ?case by (simp add: py_replace.simps)
next
  case (Cons c s)
  then show ?case
    by (subst py_replace.simps) (simp add: py_startswith_def)
qed

lemma replace_crlf_Nil: "py_replace [13, 10] [10] [] = []"
  by (simp add: py_replace.simps)

lemma replace_crlf_hit: "py_replace [13, 10] [10] (13 # 10 # s) = 10 # py_replace [13, 10] [10] s"
  by (subst py_replace.simps) (simp add: py_startswith_def)

lemma replace_crlf_miss:
  "\<not> (c = 13 \<and> (\<exists>r. s = 10 # r)) \<Longrightarrow>
   py_replace [13, 10] [10] (c # s) = c # py_replace [13, 10] [10] s"
  by (subst py_replace.simps) (cases s; auto simp add: py_startswith_def)

lemma py_split_on_nonempty: "py_split_on sep s \<noteq> []"
  by (induction s) (auto split: list.splits)

lemma py_split_on_other:
  "c \<noteq> sep \<Longrightarrow> py_split_on sep (c # s) = (c # hd (py_split_on sep s)) # tl (py_split_on sep s)"
  using py_split_on_nonempty [of sep s] by (cases "py_split_on sep s") simp_all

lemma split_lines_nonempty: "split_lines s \<noteq> []"
  by (induction s rule: split_lines.induct) (auto split: list.splits)

lemma normalized_lines:
  "py_split_on 10 (py_replace [13] [10] (py_replace [13, 10] [10] s)) = split_lines s"
proof (induction s rule: split_lines.induct)
  case 1
  then show ?case by (simp add: replace_crlf_Nil replace_cr)
next
  case (2 c cs)
  show ?case
  proof (cases "c = 13")
    case cr: True
    show ?thesis
    proof (cases cs)
      case Nil
      with cr "2.IH"(1) show ?thesis
        by (simp add: replace_crlf_miss replace_cr)
    next
      case (Cons d ds)
      show ?thesis
      proof (cases "d = 10")
        case True
        with cr Cons "2.IH"(2) show ?thesis
          by (simp add: replace_crlf_hit replace_cr)
      next
        case False
        with cr Cons "2.IH"(3) show ?thesis
          by (simp add: replace_crlf_miss replace_cr)
      qed
    qed
  next
    case ncr: False
    show ?thesis
    proof (cases "c = 10")
      case True
      with ncr "2.IH"(4) show ?thesis
        by (simp add: replace_crlf_miss replace_cr)
    next
      case False
      with ncr "2.IH"(5) split_lines_nonempty [of cs] show ?thesis
        by (cases "split_lines cs") (simp_all add: replace_crlf_miss replace_cr)
    qed
  qed
qed

lemma py_strip_Nil: "py_strip [] = []"
  by (simp add: py_strip_def)

lemma py_strip_Cons_space: "is_space c \<Longrightarrow> py_strip (c # l) = py_strip l"
  by (simp add: py_strip_def)

lemma py_strip_snoc_space: "is_space c \<Longrightarrow> py_strip (l @ [c]) = py_strip l"
proof (cases "\<forall>x\<in>set l. is_space x")
  case True
  assume "is_space c"
  with True have "dropWhile is_space (l @ [c]) = []" "dropWhile is_space l = []"
    by simp_all
  then show ?thesis by (simp only: py_strip_def)
next
  case False
  assume c: "is_space c"
  from False obtain x where "x \<in> set l" "\<not> is_space x" by blast
  then have "dropWhile is_space (l @ [c]) = dropWhile is_space l @ [c]"
    by (rule dropWhile_append1)
  then show ?thesis using c by (simp add: py_strip_def)
qed

lemma kept_lines_Cons_space:
  assumes "is_space c"
  shows "filter (\<lambda>l. l \<noteq> []) (map py_strip (py_split_on 10 (c # s))) =
         filter (\<lambda>l. l \<noteq> []) (map py_strip (py_split_on 10 s))"
proof (cases "c = 10")
  case True
  then show ?thesis by (simp add: py_strip_Nil)
next
  case False
  from False have "py_split_on 10 (c # s) = (c # hd (py_split_on 10 s)) # tl (py_split_on 10 s)"
    by (rule py_split_on_other)
  then have "map py_strip (py_split_on 10 (c # s)) =
        py_strip (hd (py_split_on 10 s)) # map py_strip (tl (py_split_on 10 s))"
    by (simp only: list.map py_strip_Cons_space [OF assms])
  also have "\<dots> = map py_strip (py_split_on 10 s)"
    using py_split_on_nonempty [of 10 s] by (cases "py_split_on 10 s") simp_all
  finally show ?thesis by simp
qed

lemma kept_lines_lstrip:
  "filter (\<lambda>l. l \<noteq> []) (map py_strip (py_split_on 10 (dropWhile is_space s))) =
   filter (\<lambda>l. l \<noteq> []) (map py_strip (py_split_on 10 s))"
proof (induction s)
  case Nil
  then show ?case by simp
next
  case (Cons c s)
  show ?case
  proof (cases "is_space c")
    case True
    with Cons show ?thesis by (simp only: dropWhile.simps if_True kept_lines_Cons_space)
  next
    case False
    then show ?thesis by (simp only: dropWhile.simps if_False)
  qed
qed

lemma py_split_on_snoc:
  "py_split_on sep (s @ [c]) =
     (if c = sep then py_split_on sep s @ [[]]
      else butlast (py_split_on sep s) @ [last (py_split_on sep s) @ [c]])"
proof (induction s)
  case Nil
  then show ?case by simp
next
  case (Cons a s)
  show ?case
  proof (cases "a = sep")
    case True
    with Cons py_split_on_nonempty [of sep s] show ?thesis by simp
  next
    case False
    obtain l ls where L: "py_split_on sep s = l # ls"
      using py_split_on_nonempty [of sep s] by (cases "py_split_on sep s") simp_all
    show ?thesis
    proof (cases "c = sep")
      case True
      with False Cons L show ?thesis by simp
    next
      case c: False
      with False Cons L show ?thesis by (cases ls) simp_all
    qed
  qed
qed

lemma kept_lines_snoc_space:
  assumes "is_space c"
  shows "filter (\<lambda>l. l \<noteq> []) (map py_strip (py_split_on 10 (s @ [c]))) =
         filter (\<lambda>l. l \<noteq> []) (map py_strip (py_split_on 10 s))"
proof (cases "c = 10")
  case True
  then show ?thesis by (simp add: py_split_on_snoc py_strip_Nil)
next
  case False
  let ?L = "py_split_on 10 s"
  have "map py_strip (py_split_on 10 (s @ [c])) =
        map py_strip (butlast ?L) @ [py_strip (last ?L @ [c])]"
    using False by (simp add: py_split_on_snoc)
  also have "\<dots> = map py_strip (butlast ?L) @ [py_strip (last ?L)]"
    using assms by (simp only: py_strip_snoc_space)
  also have "\<dots> = map py_strip (butlast ?L @ [last ?L])" by simp
  also have "\<dots> = map py_strip ?L"
    using py_split_on_nonempty [of 10 s] by simp
  finally show ?thesis by (simp only:)
qed

lemma kept_lines_rstrip:
  "filter (\<lambda>l. l \<noteq> []) (map py_strip (py_split_on 10 (rev (dropWhile is_space (rev s))))) =
   filter (\<lambda>l. l \<noteq> []) (map py_strip (py_split_on 10 s))"
proof (induction s rule: rev_induct)
  case Nil
  then show ?case by simp
next
  case (snoc c s)
  show ?case
  proof (cases "is_space c")
    case True
    with snoc show ?thesis by (simp add: kept_lines_snoc_space)
  next
    case False
    then show ?thesis by simp
  qed
qed

lemma kept_lines_strip:
  "filter (\<lambda>l. l \<noteq> []) (map py_strip (py_split_on 10 (py_strip s))) =
   filter (\<lambda>l. l \<noteq> []) (map py_strip (py_split_on 10 s))"
  by (simp only: py_strip_def kept_lines_rstrip kept_lines_lstrip)

text \<open>
  Claim C7. For a string, \<open>clean_comment\<close> gives the lines of the text, cut at every
  CR LF, CR or LF, each trimmed, the empty ones dropped, joined with LF and cut to the
  maximal length; the trimming of the whole text on line 65 changes nothing. The text
  \<^verbatim>\<open>"a\r\n\r\nb\rc"\<close> becomes \<^verbatim>\<open>"a\nb\nc"\<close>. The result is never longer than the
  maximal length, and a value that is not a string gives the empty string.
\<close>

theorem clean_comment_normalizes_lines:
  "clean_comment (JStr v) max_len = clean_comment_spec v max_len \<and>
   clean_comment (JStr [97, 13, 10, 13, 10, 98, 13, 99]) 600 = [97, 10, 98, 10, 99] \<and>
   length (clean_comment j max_len) \<le> max_len \<and>
   ((\<forall>s. j \<noteq> JStr s) \<longrightarrow> clean_comment j max_len = [])"
proof -
  have a: "clean_comment (JStr v) max_len = clean_comment_spec v max_len" for v max_len
    by (simp add: clean_comment_spec_def Let_def kept_lines_strip normalized_lines)
  have b: "clean_comment_spec [97, 13, 10, 13, 10, 98, 13, 99] 600 = [97, 10, 98, 10, 99]"
    by (simp add: clean_comment_spec_def py_strip_def is_space_def)
  have c: "length (clean_comment j max_len) \<le> max_len"
    by (cases j) (simp_all add: Let_def)
  have d: "(\<forall>s. j \<noteq> JStr s) \<longrightarrow> clean_comment j max_len = []"
    by (cases j) simp_all
  from a [of v max_len] a [of "[97, 13, 10, 13, 10, 98, 13, 99]" 600] b c d show ?thesis
    by (simp only: simp_thms)
qed

theorem clean_comment_normalizes_lines_witness:
  "(\<forall>s. JInt 7 \<noteq> JStr s) \<and> clean_comment (JInt 7) 600 = [] \<and>
   clean_comment (JStr [32, 120, 9, 13, 13, 10, 32, 10, 121, 32, 122, 10]) 4 = [120, 10, 121, 32] \<and>
   clean_comment_spec [32, 120, 9, 13, 13, 10, 32, 10, 121, 32, 122, 10] 4 = [120, 10, 121, 32]"
proof -
  have "clean_comment_spec [32, 120, 9, 13, 13, 10, 32, 10, 121, 32, 122, 10] 4 = [120, 10, 121, 32]"
    by (simp add: clean_comment_spec_def py_strip_def is_space_def)
  with clean_comment_normalizes_lines [of "[32, 120, 9, 13, 13, 10, 32, 10, 121, 32, 122, 10]" 4 "JInt 7"]
  show ?thesis by simp
qed

section \<open>Validation: properties\<close>

lemma clean_text_spaces: "list_all (\<lambda>c. is_space c \<longrightarrow> c = 32) (clean_text j max_len)"
proof (cases j)
  case (JStr v)
  have "list_all (\<lambda>c. is_space c \<longrightarrow> c = 32) (py_join [32] (py_split (py_strip v)))"
    by (rule py_join_spaces) (simp add: py_split_words)
  then have "list_all (\<lambda>c. is_space c \<longrightarrow> c = 32)
               (take max_len (py_join [32] (py_split (py_strip v))))"
    by (auto simp add: list_all_iff dest: in_set_takeD)
  with JStr show ?thesis by (simp add: ascii_def)
qed simp_all

lemma phone_class_normalized:
  "(is_space c \<longrightarrow> c = 32) \<Longrightarrow> PHONE_RE_class c = phone_allowed_char c"
  by (auto simp add: PHONE_RE_class_def phone_allowed_char_def is_digit_def is_space_def)

lemma phone_re_on_clean_text:
  "PHONE_RE_fullmatch (clean_text j max_len) = phone_allowed (clean_text j max_len)"
proof -
  have "list_all PHONE_RE_class (clean_text j max_len) =
        list_all phone_allowed_char (clean_text j max_len)"
    using clean_text_spaces [of j max_len]
    by (auto simp add: list_all_iff phone_class_normalized)
  then show ?thesis by (simp add: PHONE_RE_fullmatch_def phone_allowed_def)
qed

lemma reason_literals_distinct:
  "distinct [ascii ''name_required'', ascii ''phone_required'', ascii ''phone_invalid'',
             ascii ''car_required'', ascii ''service_required'']"
  by (simp add: ascii_def)

lemma field_names_distinct:
  "distinct [ascii ''name'', ascii ''phone'', ascii ''car'', ascii ''service'', ascii ''comment'']"
  by (simp add: ascii_def)

lemma validate_payload_reasons:
  "validate_payload payload =
     (case rejection_reasons payload of
        [] \<Rightarrow>
          (Some \<lparr>name = clean_text (py_get payload (ascii ''name'')) 80,
                  phone = clean_text (py_get payload (ascii ''phone'')) 40,
                  car = clean_text (py_get payload (ascii ''car'')) 120,
                  service = clean_text (py_get payload (ascii ''service'')) 120,
                  comment = clean_comment (py_get payload (ascii ''comment'')) 600\<rparr>, None)
      | r # rs \<Rightarrow> (None, Some r))"
  by (simp add: validate_payload_def rejection_reasons_def Let_def phone_re_on_clean_text)

lemma validate_payload_succeeds_iff:
  "(\<exists>r. validate_payload payload = (Some r, None)) \<longleftrightarrow>
     clean_text (py_get payload (ascii ''name'')) 80 \<noteq> [] \<and>
     clean_text (py_get payload (ascii ''phone'')) 40 \<noteq> [] \<and>
     phone_allowed (clean_text (py_get payload (ascii ''phone'')) 40) \<and>
     clean_text (py_get payload (ascii ''car'')) 120 \<noteq> [] \<and>
     clean_text (py_get payload (ascii ''service'')) 120 \<noteq> []"
  by (simp add: validate_payload_def Let_def phone_re_on_clean_text)

lemma py_get_removed: "py_get (payload(k := None)) k = JNull"
  by (simp add: py_get_def)

lemma py_get_other: "k' \<noteq> k \<Longrightarrow> py_get (payload(k := None)) k' = py_get payload k'"
  by (simp add: py_get_def)

lemma removal_reasons:
  assumes "validate_payload payload = (Some r, None)"
  shows "validate_payload (payload(ascii ''name'' := None)) = (None, Some (ascii ''name_required''))"
    and "validate_payload (payload(ascii ''phone'' := None)) = (None, Some (ascii ''phone_required''))"
    and "validate_payload (payload(ascii ''car'' := None)) = (None, Some (ascii ''car_required''))"
    and "validate_payload (payload(ascii ''service'' := None)) =
           (None, Some (ascii ''service_required''))"
    and "rejection_reasons (payload(ascii ''name'' := None)) = [ascii ''name_required'']"
    and "rejection_reasons (payload(ascii ''phone'' := None)) = [ascii ''phone_required'']"
    and "rejection_reasons (payload(ascii ''car'' := None)) = [ascii ''car_required'']"
    and "rejection_reasons (payload(ascii ''service'' := None)) = [ascii ''service_required'']"
proof -
  from assms have ok:
    "clean_text (py_get payload (ascii ''name'')) 80 \<noteq> []"
    "clean_text (py_get payload (ascii ''phone'')) 40 \<noteq> []"
    "phone_allowed (clean_text (py_get payload (ascii ''phone'')) 40)"
    "clean_text (py_get payload (ascii ''car'')) 120 \<noteq> []"
    "clean_text (py_get payload (ascii ''service'')) 120 \<noteq> []"
    using validate_payload_succeeds_iff [of payload] by blast+
  have ne: "ascii ''name'' \<noteq> ascii ''phone''" "ascii ''name'' \<noteq> ascii ''car''"
    "ascii ''name'' \<noteq> ascii ''service''" "ascii ''phone'' \<noteq> ascii ''car''"
    "ascii ''phone'' \<noteq> ascii ''service''" "ascii ''car'' \<noteq> ascii ''service''"
    "ascii ''phone'' \<noteq> ascii ''name''" "ascii ''car'' \<noteq> ascii ''name''"
    "ascii ''service'' \<noteq> ascii ''name''" "ascii ''car'' \<noteq> ascii ''phone''"
    "ascii ''service'' \<noteq> ascii ''phone''" "ascii ''service'' \<noteq> ascii ''car''"
    by (simp_all add: ascii_def)
  show "rejection_reasons (payload(ascii ''name'' := None)) = [ascii ''name_required'']"
    using ok by (simp add: rejection_reasons_def Let_def py_get_removed py_get_other ne)
  show "rejection_reasons (payload(ascii ''phone'' := None)) = [ascii ''phone_required'']"
    using ok by (simp add: rejection_reasons_def Let_def py_get_removed py_get_other ne)
  show "rejection_reasons (payload(ascii ''car'' := None)) = [ascii ''car_required'']"
    using ok by (simp add: rejection_reasons_def Let_def py_get_removed py_get_other ne)
  show "rejection_reasons (payload(ascii ''service'' := None)) = [ascii ''service_required'']"
    using ok by (simp add: rejection_reasons_def Let_def py_get_removed py_get_other ne)
  show "validate_payload (payload(ascii ''name'' := None)) = (None, Some (ascii ''name_required''))"
    by (simp add: validate_payload_def Let_def py_get_removed)
  show "validate_payload (payload(ascii ''phone'' := None)) = (None, Some (ascii ''phone_required''))"
    using ok by (simp add: validate_payload_def Let_def py_get_removed py_get_other ne)
  show "validate_payload (payload(ascii ''car'' := None)) = (None, Some (ascii ''car_required''))"
    using ok
    by (simp add: validate_payload_def Let_def py_get_removed py_get_other ne phone_re_on_clean_text)
  show "validate_payload (payload(ascii ''service'' := None)) =
           (None, Some (ascii ''service_required''))"
    using ok
    by (simp add: validate_payload_def Let_def py_get_removed py_get_other ne phone_re_on_clean_text)
qed

text \<open>
  Claim C1. \<open>validate_payload\<close> returns the first of the rejection reasons that apply,
  in the order \<open>name_required\<close>, \<open>phone_required\<close>, \<open>phone_invalid\<close>,
  \<open>car_required\<close>, \<open>service_required\<close>, and the record of the normalized fields when
  none applies. It succeeds exactly when name, phone, car and service are non-empty
  after normalization and the phone is in the allowed class. Removing one required
  field from a payload that validates gives that field's reason, and it is then the only
  reason that applies.
\<close>

theorem validation_first_reason:
  "validate_payload payload =
     (case rejection_reasons payload of
        [] \<Rightarrow>
          (Some \<lparr>name = clean_text (py_get payload (ascii ''name'')) 80,
                  phone = clean_text (py_get payload (ascii ''phone'')) 40,
                  car = clean_text (py_get payload (ascii ''car'')) 120,
                  service = clean_text (py_get payload (ascii ''service'')) 120,
                  comment = clean_comment (py_get payload (ascii ''comment'')) 600\<rparr>, None)
      | r # rs \<Rightarrow> (None, Some r)) \<and>
   ((\<exists>r. validate_payload payload = (Some r, None)) \<longleftrightarrow>
      clean_text (py_get payload (ascii ''name'')) 80 \<noteq> [] \<and>
      clean_text (py_get payload (ascii ''phone'')) 40 \<noteq> [] \<and>
      phone_allowed (clean_text (py_get payload (ascii ''phone'')) 40) \<and>
      clean_text (py_get payload (ascii ''car'')) 120 \<noteq> [] \<and>
      clean_text (py_get payload (ascii ''service'')) 120 \<noteq> []) \<and>
   ((\<exists>r. validate_payload payload = (Some r, None)) \<longrightarrow>
      validate_payload (payload(ascii ''name'' := None)) = (None, Some (ascii ''name_required'')) \<and>
      rejection_reasons (payload(ascii ''name'' := None)) = [ascii ''name_required''] \<and>
      validate_payload (payload(ascii ''phone'' := None)) = (None, Some (ascii ''phone_required'')) \<and>
      rejection_reasons (payload(ascii ''phone'' := None)) = [ascii ''phone_required''] \<and>
      validate_payload (payload(ascii ''car'' := None)) = (None, Some (ascii ''car_required'')) \<and>
      rejection_reasons (payload(ascii ''car'' := None)) = [ascii ''car_required''] \<and>
      validate_payload (payload(ascii ''service'' := None)) =
        (None, Some (ascii ''service_required'')) \<and>
      rejection_reasons (payload(ascii ''service'' := None)) = [ascii ''service_required''])"
proof (intro conjI impI)
  show "validate_payload payload =
     (case rejection_reasons payload of
        [] \<Rightarrow>
          (Some \<lparr>name = clean_text (py_get payload (ascii ''name'')) 80,
                  phone = clean_text (py_get payload (ascii ''phone'')) 40,
                  car = clean_text (py_get payload (ascii ''car'')) 120,
                  service = clean_text (py_get payload (ascii ''service'')) 120,
                  comment = clean_comment (py_get payload (ascii ''comment'')) 600\<rparr>, None)
      | r # rs \<Rightarrow> (None, Some r))"
    by (rule validate_payload_reasons)
  show "(\<exists>r. validate_payload payload = (Some r, None)) \<longleftrightarrow>
      clean_text (py_get payload (ascii ''name'')) 80 \<noteq> [] \<and>
      clean_text (py_get payload (ascii ''phone'')) 40 \<noteq> [] \<and>
      phone_allowed (clean_text (py_get payload (ascii ''phone'')) 40) \<and>
      clean_text (py_get payload (ascii ''car'')) 120 \<noteq> [] \<and>
      clean_text (py_get payload (ascii ''service'')) 120 \<noteq> []"
    by (rule validate_payload_succeeds_iff)
next
  assume "\<exists>r. validate_payload payload = (Some r, None)"
  then obtain r where r: "validate_payload payload = (Some r, None)" ..
  note rm = removal_reasons [OF r]
  show "validate_payload (payload(ascii ''name'' := None)) = (None, Some (ascii ''name_required''))"
    by (rule rm)
  show "rejection_reasons (payload(ascii ''name'' := None)) = [ascii ''name_required'']"
    by (rule rm)
  show "validate_payload (payload(ascii ''phone'' := None)) = (None, Some (ascii ''phone_required''))"
    by (rule rm)
  show "rejection_reasons (payload(ascii ''phone'' := None)) = [ascii ''phone_required'']"
    by (rule rm)
  show "validate_payload (payload(ascii ''car'' := None)) = (None, Some (ascii ''car_required''))"
    by (rule rm)
  show "rejection_reasons (payload(ascii ''car'' := None)) = [ascii ''car_required'']"
    by (rule rm)
  show "validate_payload (payload(ascii ''service'' := None)) =
        (None, Some (ascii ''service_required''))"
    by (rule rm)
  show "rejection_reasons (payload(ascii ''service'' := None)) = [ascii ''service_required'']"
    by (rule rm)
qed

theorem validation_first_reason_witness:
  "validate_payload (map_of sample_payload) =
     (Some \<lparr>name = ascii ''Ivan'', phone = ascii ''+7 (900) 123-45-67'', car = ascii ''BMW X5'',
             service = ascii ''wash'', comment = []\<rparr>, None) \<and>
   validate_payload ((map_of sample_payload)(ascii ''name'' := None)) =
     (None, Some (ascii ''name_required'')) \<and>
   validate_payload ((map_of sample_payload)(ascii ''phone'' := None)) =
     (None, Some (ascii ''phone_required'')) \<and>
   validate_payload ((map_of sample_payload)(ascii ''car'' := None)) =
     (None, Some (ascii ''car_required'')) \<and>
   validate_payload ((map_of sample_payload)(ascii ''service'' := None)) =
     (None, Some (ascii ''service_required''))"
  using validation_first_reason [of "map_of sample_payload"]
  by (simp add: validate_sample)

text \<open>
  Claim C6. On a normalized value the pattern of line 22 accepts exactly the strings of
  6 to 25 characters among the digits, \<open>+\<close>, \<open>-\<close>, \<open>(\<close>, \<open>)\<close> and the space: the
  other whitespace that \<^verbatim>\<open>\s\<close> matches cannot occur after normalization. When the phone
  check is reached (the name is not empty), an empty phone gives \<open>phone_required\<close>, a
  non-empty phone gives \<open>phone_invalid\<close> exactly when it is outside the allowed class,
  and the two reasons differ. \<^verbatim>\<open>"123"\<close> gives \<open>phone_invalid\<close>, and
  \<^verbatim>\<open>"+7 (900) 123-45-67"\<close> is valid.
\<close>

theorem phone_format_check:
  "(PHONE_RE_fullmatch (clean_text j 40) \<longleftrightarrow> phone_allowed (clean_text j 40)) \<and>
   (clean_text (py_get payload (ascii ''name'')) 80 \<noteq> [] \<longrightarrow>
      (clean_text (py_get payload (ascii ''phone'')) 40 = [] \<longrightarrow>
         validate_payload payload = (None, Some (ascii ''phone_required''))) \<and>
      (clean_text (py_get payload (ascii ''phone'')) 40 \<noteq> [] \<longrightarrow>
         (validate_payload payload = (None, Some (ascii ''phone_invalid'')) \<longleftrightarrow>
            \<not> phone_allowed (clean_text (py_get payload (ascii ''phone'')) 40)) \<and>
         validate_payload payload \<noteq> (None, Some (ascii ''phone_required'')))) \<and>
   ascii ''phone_invalid'' \<noteq> ascii ''phone_required'' \<and>
   clean_text (JStr (ascii ''123'')) 40 = ascii ''123'' \<and>
   \<not> phone_allowed (ascii ''123'') \<and>
   validate_payload ((map_of sample_payload)(ascii ''phone'' \<mapsto> JStr (ascii ''123''))) =
     (None, Some (ascii ''phone_invalid'')) \<and>
   clean_text (JStr (ascii ''+7 (900) 123-45-67'')) 40 = ascii ''+7 (900) 123-45-67'' \<and>
   phone_allowed (ascii ''+7 (900) 123-45-67'') \<and>
   validate_payload (map_of sample_payload) =
     (Some \<lparr>name = ascii ''Ivan'', phone = ascii ''+7 (900) 123-45-67'', car = ascii ''BMW X5'',
             service = ascii ''wash'', comment = []\<rparr>, None)"
proof -
  have a: "PHONE_RE_fullmatch (clean_text j 40) \<longleftrightarrow> phone_allowed (clean_text j 40)"
    by (rule phone_re_on_clean_text)
  have lits: "ascii ''phone_invalid'' \<noteq> ascii ''phone_required''"
    "ascii ''car_required'' \<noteq> ascii ''phone_invalid''"
    "ascii ''service_required'' \<noteq> ascii ''phone_invalid''"
    "ascii ''car_required'' \<noteq> ascii ''phone_required''"
    "ascii ''service_required'' \<noteq> ascii ''phone_required''"
    by (simp_all add: ascii_def)
  have b: "clean_text (py_get payload (ascii ''name'')) 80 \<noteq> [] \<longrightarrow>
      (clean_text (py_get payload (ascii ''phone'')) 40 = [] \<longrightarrow>
         validate_payload payload = (None, Some (ascii ''phone_required''))) \<and>
      (clean_text (py_get payload (ascii ''phone'')) 40 \<noteq> [] \<longrightarrow>
         (validate_payload payload = (None, Some (ascii ''phone_invalid'')) \<longleftrightarrow>
            \<not> phone_allowed (clean_text (py_get payload (ascii ''phone'')) 40)) \<and>
         validate_payload payload \<noteq> (None, Some (ascii ''phone_required'')))"
    using lits by (simp add: validate_payload_def Let_def phone_re_on_clean_text)
  have c: "clean_text (JStr (ascii ''123'')) 40 = ascii ''123''"
    "clean_text (JStr (ascii ''+7 (900) 123-45-67'')) 40 = ascii ''+7 (900) 123-45-67''"
    by (simp_all add: eval_strings)
  have d: "\<not> phone_allowed (ascii ''123'')" "phone_allowed (ascii ''+7 (900) 123-45-67'')"
    by (simp_all add: phone_allowed_def phone_allowed_char_def is_digit_def ascii_def)
  have e: "validate_payload ((map_of sample_payload)(ascii ''phone'' \<mapsto> JStr (ascii ''123''))) =
     (None, Some (ascii ''phone_invalid''))"
    by (simp add: validate_payload_def sample_payload_def Let_def eval_strings)
  from a b lits(1) c d e validate_sample show ?thesis by (simp only: simp_thms)
qed

theorem phone_format_check_witness:
  "clean_text (py_get ((map_of sample_payload)(ascii ''phone'' \<mapsto> JStr (ascii ''12 34''))) (ascii ''name'')) 80 \<noteq> [] \<and>
   clean_text (py_get ((map_of sample_payload)(ascii ''phone'' \<mapsto> JStr (ascii ''12 34''))) (ascii ''phone'')) 40
     = ascii ''12 34'' \<and>
   \<not> phone_allowed (ascii ''12 34'') \<and>
   validate_payload ((map_of sample_payload)(ascii ''phone'' \<mapsto> JStr (ascii ''12 34''))) =
     (None, Some (ascii ''phone_invalid''))"
proof -
  let ?p = "(map_of sample_payload)(ascii ''phone'' \<mapsto> JStr (ascii ''12 34''))"
  have nm: "clean_text (py_get ?p (ascii ''name'')) 80 \<noteq> []"
    by (simp add: sample_payload_def eval_strings)
  have ph: "clean_text (py_get ?p (ascii ''phone'')) 40 = ascii ''12 34''"
    by (simp add: sample_payload_def eval_strings)
  have bad: "\<not> phone_allowed (ascii ''12 34'')"
    by (simp add: phone_allowed_def ascii_def)
  from phone_format_check [of _ ?p] nm ph bad show ?thesis
    by (simp add: ascii_def)
qed

end
